theory Spec2Isabelle
  imports Complex_Main "HOL-Library.AList"
begin

section \<open>Data model\<close>

text \<open>
  Strings are \<^typ>\<open>string\<close>: one \<^typ>\<open>char\<close> stands for one UTF-16 code unit of the
  host (code units up to 255), so \<^const>\<open>length\<close> is the host's \<^verbatim>\<open>.length\<close>.
  Numbers that the agent only counts, compares and prints (line numbers, lengths,
  attempt counters) are \<^typ>\<open>nat\<close>; clock readings of \<^verbatim>\<open>Date.now()\<close> and the
  configured limits are \<^typ>\<open>int\<close>. A \<^verbatim>\<open>Record<string, T>\<close> is an association list
  in insertion order, written to with \<^const>\<open>AList.update\<close> (an existing key keeps its
  place, as a property of a host object does).
\<close>

subsection \<open>exception-handler.ts: the captured data\<close>

datatype CapturedVariable = CapturedVariable
  (cv_name: string)
  (cv_type: string)
  (cv_value: string)
  (isNull: bool)
  (isTruncated: bool)
  (children: "(string \<times> CapturedVariable) list option")
  (arrayElements: "CapturedVariable list option")
  (arrayLength: "nat option")

type_synonym Locals = "(string \<times> CapturedVariable) list"

record StackFrame =
  className :: "string option"
  methodName :: string
  fileName :: "string option"
  filePath :: "string option"
  lineNumber :: "nat option"
  columnNumber :: "nat option"
  isNative :: bool
  sourceAvailable :: bool

record User =
  user_id :: "string option"
  user_email :: "string option"
  user_username :: "string option"

text \<open>A value of a context record: the host's \<^verbatim>\<open>unknown\<close>, kept as its printed form,
  or the user object.\<close>

datatype ContextValue = Opaque string | UserValue User

type_synonym Context = "(string \<times> ContextValue) list"

record ExceptionCapture =
  ec_id :: string
  exceptionType :: string
  ec_message :: string
  fingerprint :: string
  stackTrace :: "StackFrame list"
  localVariables :: Locals
  ec_context :: Context
  capturedAt :: string

subsection \<open>config.ts: AgentConfig\<close>

record ConfigOptions =
  opt_apiKey :: "string option"
  opt_backendUrl :: "string option"
  opt_environment :: "string option"
  opt_samplingRate :: "real option"
  opt_maxCaptureDepth :: "int option"
  opt_maxStringLength :: "int option"
  opt_maxCollectionSize :: "int option"
  opt_enableBreakpoints :: "bool option"
  opt_enableSourceMaps :: "bool option"
  opt_debug :: "bool option"
  opt_scopeDepth :: "int option"

text \<open>
  What the constructor reads from the host: the \<^verbatim>\<open>AIVORY_*\<close> variables of
  \<^verbatim>\<open>process.env\<close>, the host name, the generated agent id and the release record
  that \<^verbatim>\<open>resolveGitContext\<close> returns (kept as its printed form). A numeric variable
  is held as the number \<^verbatim>\<open>parseInt\<close> or \<^verbatim>\<open>parseFloat\<close> reads from its text.
\<close>

record ProcessEnv =
  AIVORY_API_KEY :: "string option"
  AIVORY_BACKEND_URL :: "string option"
  AIVORY_ENVIRONMENT :: "string option"
  AIVORY_SAMPLING_RATE :: "real option"
  AIVORY_MAX_DEPTH :: "int option"
  AIVORY_MAX_STRING_LENGTH :: "int option"
  AIVORY_MAX_COLLECTION_SIZE :: "int option"
  AIVORY_ENABLE_BREAKPOINTS :: "string option"
  AIVORY_ENABLE_SOURCEMAPS :: "string option"
  AIVORY_DEBUG :: "string option"
  AIVORY_SCOPE_DEPTH :: "int option"
  os_hostname :: string
  generatedAgentId :: string
  resolvedGitContext :: "string option"
  runtimeVersion :: string
  platform :: string
  arch :: string

record AgentConfig =
  apiKey :: string
  backendUrl :: string
  environment :: string
  samplingRate :: real
  maxCaptureDepth :: int
  maxStringLength :: int
  maxCollectionSize :: int
  enableBreakpoints :: bool
  enableSourceMaps :: bool
  debug :: bool
  hostname :: string
  agentId :: string
  scopeDepth :: int
  gitContext :: "string option"
  customContext :: Context
  user :: User
  runtimeInfo :: "string \<times> string \<times> string \<times> string"

text \<open>The host's \<^verbatim>\<open>a || b\<close> on optional strings: an absent or empty string is falsy.\<close>

fun str_or :: "string option \<Rightarrow> string \<Rightarrow> string" where
  "str_or None d = d"
| "str_or (Some s) d = (if s = [] then d else s)"

text \<open>The host's \<^verbatim>\<open>a ?? b\<close>.\<close>

fun nullish :: "'a option \<Rightarrow> 'a \<Rightarrow> 'a" where
  "nullish None d = d"
| "nullish (Some v) d = v"

definition new_AgentConfig :: "ConfigOptions \<Rightarrow> ProcessEnv \<Rightarrow> AgentConfig" where
  "new_AgentConfig options env =
     \<lparr> apiKey = str_or (opt_apiKey options) (str_or (AIVORY_API_KEY env) []),
       backendUrl = str_or (opt_backendUrl options)
                      (str_or (AIVORY_BACKEND_URL env) ''wss://api.aivory.net/ws/agent''),
       environment = str_or (opt_environment options)
                      (str_or (AIVORY_ENVIRONMENT env) ''production''),
       samplingRate = nullish (opt_samplingRate options) (nullish (AIVORY_SAMPLING_RATE env) 1),
       maxCaptureDepth = nullish (opt_maxCaptureDepth options) (nullish (AIVORY_MAX_DEPTH env) 10),
       maxStringLength =
         nullish (opt_maxStringLength options) (nullish (AIVORY_MAX_STRING_LENGTH env) 1000),
       maxCollectionSize =
         nullish (opt_maxCollectionSize options) (nullish (AIVORY_MAX_COLLECTION_SIZE env) 100),
       enableBreakpoints =
         nullish (opt_enableBreakpoints options) (AIVORY_ENABLE_BREAKPOINTS env \<noteq> Some ''false''),
       enableSourceMaps =
         nullish (opt_enableSourceMaps options) (AIVORY_ENABLE_SOURCEMAPS env \<noteq> Some ''false''),
       debug = nullish (opt_debug options) (AIVORY_DEBUG env = Some ''true''),
       hostname = os_hostname env,
       agentId = generatedAgentId env,
       scopeDepth = nullish (opt_scopeDepth options) (nullish (AIVORY_SCOPE_DEPTH env) 0),
       gitContext = resolvedGitContext env,
       customContext = [],
       user = \<lparr> user_id = None, user_email = None, user_username = None \<rparr>,
       runtimeInfo = (''nodejs'', runtimeVersion env, platform env, arch env) \<rparr>"

text \<open>\<^verbatim>\<open>shouldSample\<close>; \<open>rnd\<close> is the value \<^verbatim>\<open>Math.random()\<close> returns when it is asked.\<close>

definition shouldSample :: "AgentConfig \<Rightarrow> real \<Rightarrow> bool" where
  "shouldSample config rnd =
     (if samplingRate config \<ge> 1 then True
      else if samplingRate config \<le> 0 then False
      else rnd < samplingRate config)"

definition getCustomContext :: "AgentConfig \<Rightarrow> Context" where
  "getCustomContext config = customContext config"

definition getUser :: "AgentConfig \<Rightarrow> User" where
  "getUser config = user config"

definition setCustomContext :: "AgentConfig \<Rightarrow> Context \<Rightarrow> AgentConfig" where
  "setCustomContext config ctx = config\<lparr>customContext := ctx\<rparr>"

definition setUser :: "AgentConfig \<Rightarrow> User \<Rightarrow> AgentConfig" where
  "setUser config u = config\<lparr>user := u\<rparr>"

section \<open>Transport: BackendConnection\<close>

subsection \<open>Messages\<close>

text \<open>The frames and variables captured from the paused call stack, as
  \<^verbatim>\<open>captureCallFramesAsync\<close> returns them; a \<^verbatim>\<open>breakpoint_hit\<close> message carries them.\<close>

record InspectorFrame =
  method_name :: string
  file_path :: string
  file_name :: string
  line_number :: nat
  column_number :: nat
  is_native :: bool
  source_available :: bool

record CapturedData =
  stack_trace :: "InspectorFrame list"
  local_variables :: Locals

datatype Payload =
    ExceptionPayload ExceptionCapture string string "string \<times> string \<times> string \<times> string"
      "string option"
  | BreakpointHitPayload string string string CapturedData
  | HeartbeatPayload int string
  | RegisterPayload string string string string "string \<times> string \<times> string \<times> string"
      "string option"

text \<open>A message envelope. The source queues and sends \<^verbatim>\<open>JSON.stringify(message)\<close>, a
  non-empty text; the model keeps the envelope itself.\<close>

record Message =
  msg_type :: string
  msg_payload :: Payload
  msg_timestamp :: int

text \<open>The socket of the \<^verbatim>\<open>ws\<close> package: its ready state and the frames handed to
  \<^verbatim>\<open>ws.send\<close> while it was open, oldest first.\<close>

definition CONNECTING :: nat where "CONNECTING = 0"
definition OPEN :: nat where "OPEN = 1"
definition CLOSING :: nat where "CLOSING = 2"
definition CLOSED :: nat where "CLOSED = 3"

record WebSocket =
  readyState :: nat
  sentFrames :: "Message list"

text \<open>\<^verbatim>\<open>ws.send(frame)\<close>: an open socket takes the frame; a closing or closed one drops
  it. (A connecting socket would throw; no call of the agent reaches it in that state.)\<close>

definition ws_send :: "WebSocket \<Rightarrow> Message \<Rightarrow> WebSocket" where
  "ws_send w m = (if readyState w = OPEN then w\<lparr>sentFrames := sentFrames w @ [m]\<rparr> else w)"

text \<open>An inbound frame after \<^verbatim>\<open>JSON.parse\<close>: its \<^verbatim>\<open>type\<close> and the fields of its payload
  that a handler reads. \<open>None\<close> as the whole frame is a text that does not parse; the
  \<^verbatim>\<open>try\<close> of \<^verbatim>\<open>handleMessage\<close> swallows that, and an \<^verbatim>\<open>error\<close> frame without a
  payload, whose handler throws at its first line.\<close>

datatype InPayload =
    NoPayload
  | ErrorInfo "string option" "string option"
  | BreakpointInfo string string nat "string option"
  | RemoveInfo string

record InMessage =
  in_type :: string
  in_payload :: InPayload

text \<open>An event given to \<^verbatim>\<open>this.emit\<close>, with the payload it carries.\<close>

datatype Emitted = EmitSetBreakpoint InPayload | EmitRemoveBreakpoint InPayload

subsection \<open>The connection\<close>

record BackendConnection =
  ws :: "WebSocket option"
  connected :: bool
  authenticated :: bool
  reconnectAttempts :: nat
  maxReconnectAttempts :: nat
  heartbeatInterval :: bool
  messageQueue :: "Message list"
  scheduledReconnects :: "nat list"
  emitted :: "Emitted list"

text \<open>
  \<^const>\<open>scheduledReconnects\<close> logs the delay of every \<^verbatim>\<open>setTimeout(() => this.connect(), delay)\<close>
  in the order they were set; \<^const>\<open>emitted\<close> logs the events passed to \<^verbatim>\<open>this.emit\<close>;
  \<^const>\<open>heartbeatInterval\<close> tells whether the 30 s interval timer is set.
\<close>

text \<open>\<^verbatim>\<open>private reconnectDelay = 1000\<close> is never assigned again.\<close>

definition reconnectDelay :: nat where
  "reconnectDelay = 1000"

definition new_BackendConnection :: BackendConnection where
  "new_BackendConnection =
     \<lparr> ws = None, connected = False, authenticated = False, reconnectAttempts = 0,
       maxReconnectAttempts = 10, heartbeatInterval = False,
       messageQueue = [], scheduledReconnects = [], emitted = [] \<rparr>"

definition stopHeartbeat :: "BackendConnection \<Rightarrow> BackendConnection" where
  "stopHeartbeat c = (if heartbeatInterval c then c\<lparr>heartbeatInterval := False\<rparr> else c)"

definition startHeartbeat :: "BackendConnection \<Rightarrow> BackendConnection" where
  "startHeartbeat c = (stopHeartbeat c)\<lparr>heartbeatInterval := True\<rparr>"

definition scheduleReconnect :: "BackendConnection \<Rightarrow> BackendConnection" where
  "scheduleReconnect c =
     (if reconnectAttempts c \<ge> maxReconnectAttempts c then c
      else
        let attempts = reconnectAttempts c + 1;
            delay = min (reconnectDelay * 2 ^ (attempts - 1)) 60000
        in c\<lparr>reconnectAttempts := attempts,
              scheduledReconnects := scheduledReconnects c @ [delay]\<rparr>)"

text \<open>\<^verbatim>\<open>connect\<close>; \<open>created\<close> is false when \<^verbatim>\<open>new WebSocket(...)\<close> throws.\<close>

definition connect :: "BackendConnection \<Rightarrow> bool \<Rightarrow> BackendConnection" where
  "connect c created =
     (if connected c then c
      else if created then c\<lparr>ws := Some \<lparr>readyState = CONNECTING, sentFrames = []\<rparr>\<rparr>
      else scheduleReconnect c)"

definition disconnect :: "BackendConnection \<Rightarrow> BackendConnection" where
  "disconnect c =
     (let c1 = stopHeartbeat c;
          c2 = (case ws c1 of None \<Rightarrow> c1 | Some w \<Rightarrow> c1\<lparr>ws := None\<rparr>)
      in c2\<lparr>connected := False, authenticated := False\<rparr>)"

text \<open>The socket is there and its ready state is \<^verbatim>\<open>WebSocket.OPEN\<close>.\<close>

definition socketOpen :: "BackendConnection \<Rightarrow> bool" where
  "socketOpen c = (case ws c of None \<Rightarrow> False | Some w \<Rightarrow> readyState w = OPEN)"

text \<open>The frames handed to the current socket so far.\<close>

definition frames :: "BackendConnection \<Rightarrow> Message list" where
  "frames c = (case ws c of None \<Rightarrow> [] | Some w \<Rightarrow> sentFrames w)"

text \<open>\<^verbatim>\<open>send\<close>; \<open>now\<close> is the reading of \<^verbatim>\<open>Date.now()\<close>.\<close>

definition send :: "BackendConnection \<Rightarrow> string \<Rightarrow> Payload \<Rightarrow> int \<Rightarrow> BackendConnection" where
  "send c ty payload now =
     (let message = \<lparr> msg_type = ty, msg_payload = payload, msg_timestamp = now \<rparr> in
      if socketOpen c \<and> authenticated c
      then c\<lparr>ws := map_option (\<lambda>w. ws_send w message) (ws c)\<rparr>
      else
        let q = messageQueue c @ [message]
        in c\<lparr>messageQueue := (if length q > 100 then tl q else q)\<rparr>)"

definition sendException ::
  "AgentConfig \<Rightarrow> BackendConnection \<Rightarrow> ExceptionCapture \<Rightarrow> int \<Rightarrow> BackendConnection" where
  "sendException config c capture now =
     send c ''exception''
       (ExceptionPayload capture (agentId config) (environment config) (runtimeInfo config)
          (gitContext config)) now"

definition sendBreakpointHit ::
  "AgentConfig \<Rightarrow> BackendConnection \<Rightarrow> string \<Rightarrow> string \<Rightarrow> CapturedData \<Rightarrow> int
     \<Rightarrow> BackendConnection" where
  "sendBreakpointHit config c breakpointId captured_at d now =
     send c ''breakpoint_hit'' (BreakpointHitPayload breakpointId (agentId config) captured_at d) now"

definition authenticate :: "AgentConfig \<Rightarrow> BackendConnection \<Rightarrow> int \<Rightarrow> BackendConnection" where
  "authenticate config c now =
     (let message = \<lparr> msg_type = ''register'',
                       msg_payload = RegisterPayload (apiKey config) (agentId config)
                         (hostname config) (environment config) (runtimeInfo config)
                         (gitContext config),
                       msg_timestamp = now \<rparr>
      in case ws c of None \<Rightarrow> c | Some w \<Rightarrow> c\<lparr>ws := Some (ws_send w message)\<rparr>)"

text \<open>The queue loop of \<^verbatim>\<open>handleRegistered\<close>: each turn shifts the head off the queue and
  sends it when the socket is there and open.\<close>

fun drainQueue :: "WebSocket option \<Rightarrow> Message list \<Rightarrow> WebSocket option" where
  "drainQueue w [] = w"
| "drainQueue w (msg # q) =
     drainQueue (case w of
                   None \<Rightarrow> None
                 | Some s \<Rightarrow> if readyState s = OPEN then Some (ws_send s msg) else Some s) q"

definition handleRegistered :: "BackendConnection \<Rightarrow> BackendConnection" where
  "handleRegistered c =
     (let c1 = startHeartbeat (c\<lparr>authenticated := True\<rparr>)
      in c1\<lparr>ws := drainQueue (ws c1) (messageQueue c1), messageQueue := []\<rparr>)"

definition handleError :: "BackendConnection \<Rightarrow> string option \<Rightarrow> BackendConnection" where
  "handleError c code =
     (if code = Some ''auth_error'' \<or> code = Some ''invalid_api_key''
      then disconnect (c\<lparr>maxReconnectAttempts := 0\<rparr>)
      else c)"

definition handleMessage :: "BackendConnection \<Rightarrow> InMessage option \<Rightarrow> BackendConnection" where
  "handleMessage c data =
     (case data of
        None \<Rightarrow> c
      | Some message \<Rightarrow>
          if in_type message = ''registered'' then handleRegistered c
          else if in_type message = ''error'' then
            (case in_payload message of
               ErrorInfo code msg \<Rightarrow> handleError c code
             | NoPayload \<Rightarrow> c
             | _ \<Rightarrow> handleError c None)
          else if in_type message = ''set_breakpoint'' then
            c\<lparr>emitted := emitted c @ [EmitSetBreakpoint (in_payload message)]\<rparr>
          else if in_type message = ''remove_breakpoint'' then
            c\<lparr>emitted := emitted c @ [EmitRemoveBreakpoint (in_payload message)]\<rparr>
          else c)"

text \<open>The three listeners that \<^verbatim>\<open>connect\<close> puts on the socket. When \<^verbatim>\<open>open\<close> fires the
  socket is open, and when \<^verbatim>\<open>close\<close> fires it is closed.\<close>

definition on_open :: "AgentConfig \<Rightarrow> BackendConnection \<Rightarrow> int \<Rightarrow> BackendConnection" where
  "on_open config c now =
     authenticate config
       (c\<lparr>ws := map_option (\<lambda>w. w\<lparr>readyState := OPEN\<rparr>) (ws c),
           connected := True, reconnectAttempts := 0\<rparr>) now"

definition on_message :: "BackendConnection \<Rightarrow> InMessage option \<Rightarrow> BackendConnection" where
  "on_message c data = handleMessage c data"

definition on_close :: "BackendConnection \<Rightarrow> BackendConnection" where
  "on_close c =
     scheduleReconnect
       (stopHeartbeat
          (c\<lparr>ws := map_option (\<lambda>w. w\<lparr>readyState := CLOSED\<rparr>) (ws c),
              connected := False, authenticated := False\<rparr>))"

definition heartbeat_tick :: "AgentConfig \<Rightarrow> BackendConnection \<Rightarrow> int \<Rightarrow> BackendConnection" where
  "heartbeat_tick config c now =
     (if heartbeatInterval c then send c ''heartbeat'' (HeartbeatPayload now (agentId config)) now
      else c)"

definition isConnected :: "BackendConnection \<Rightarrow> bool" where
  "isConnected c = (connected c \<and> authenticated c)"

text \<open>What can happen to a connection: the calls of its public methods, the events of
  its socket and its two timers. A run applies them in order.\<close>

datatype TransportEvent =
    Connect bool
  | Disconnect
  | WsOpen int
  | WsMessage "InMessage option"
  | WsClose
  | ReconnectTimer bool
  | HeartbeatTimer int
  | SendException ExceptionCapture int
  | SendBreakpointHit string string CapturedData int

fun transport_step :: "AgentConfig \<Rightarrow> BackendConnection \<Rightarrow> TransportEvent \<Rightarrow> BackendConnection" where
  "transport_step config c (Connect created) = connect c created"
| "transport_step config c Disconnect = disconnect c"
| "transport_step config c (WsOpen now) = on_open config c now"
| "transport_step config c (WsMessage data) = on_message c data"
| "transport_step config c WsClose = on_close c"
| "transport_step config c (ReconnectTimer created) = connect c created"
| "transport_step config c (HeartbeatTimer now) = heartbeat_tick config c now"
| "transport_step config c (SendException capture now) = sendException config c capture now"
| "transport_step config c (SendBreakpointHit b t d now) = sendBreakpointHit config c b t d now"

definition transport_run ::
  "AgentConfig \<Rightarrow> BackendConnection \<Rightarrow> TransportEvent list \<Rightarrow> BackendConnection" where
  "transport_run config c evs = foldl (transport_step config) c evs"

text \<open>A run of plain \<^verbatim>\<open>send\<close> calls, each with its type, payload and clock reading.\<close>

definition send_all ::
  "BackendConnection \<Rightarrow> (string \<times> Payload \<times> int) list \<Rightarrow> BackendConnection" where
  "send_all c ms = foldl (\<lambda>c (ty, p, now). send c ty p now) c ms"

section \<open>Text helpers of the host\<close>

definition NL :: char where
  "NL = CHR 0x0A"

text \<open>\<^verbatim>\<open>s.split(sep)\<close> for a one-character separator: the pieces between the
  separators, an empty text giving one empty piece.\<close>

fun split :: "char \<Rightarrow> string \<Rightarrow> string list" where
  "split sep [] = [[]]"
| "split sep (c # cs) =
     (if c = sep then [] # split sep cs
      else (case split sep cs of
              [] \<Rightarrow> [[c]]
            | piece # pieces \<Rightarrow> (c # piece) # pieces))"

text \<open>\<^verbatim>\<open>pieces.join(sep)\<close>.\<close>

fun join :: "string \<Rightarrow> string list \<Rightarrow> string" where
  "join sep [] = []"
| "join sep [piece] = piece"
| "join sep (piece # pieces) = piece @ sep @ join sep pieces"

definition digit_char :: "nat \<Rightarrow> char" where
  "digit_char d = ''0123456789'' ! d"

text \<open>The decimal text of a number, as a template literal prints it.\<close>

fun show_nat :: "nat \<Rightarrow> string" where
  "show_nat n = (if n < 10 then [digit_char n] else show_nat (n div 10) @ [digit_char (n mod 10)])"

definition show_int :: "int \<Rightarrow> string" where
  "show_int i = (if i < 0 then CHR ''-'' # show_nat (nat (- i)) else show_nat (nat i))"

definition is_digit :: "char \<Rightarrow> bool" where
  "is_digit c = (c \<in> set ''0123456789'')"

definition digit_val :: "char \<Rightarrow> nat" where
  "digit_val c = length (takeWhile (\<lambda>d. d \<noteq> c) ''0123456789'')"

text \<open>\<^verbatim>\<open>parseInt(digits, 10)\<close> on a text of decimal digits.\<close>

definition parseInt :: "string \<Rightarrow> nat" where
  "parseInt ds = foldl (\<lambda>n c. 10 * n + digit_val c) 0 ds"

text \<open>White space of the host within the code units of the model: tab, line feed,
  vertical tab, form feed, carriage return, space and no-break space.\<close>

definition is_space :: "char \<Rightarrow> bool" where
  "is_space c = (c \<in> set [CHR 0x09, CHR 0x0A, CHR 0x0B, CHR 0x0C, CHR 0x0D, CHR '' '', CHR 0xA0])"

definition trim :: "string \<Rightarrow> string" where
  "trim s = rev (dropWhile is_space (rev (dropWhile is_space s)))"

definition startsWith :: "string \<Rightarrow> string \<Rightarrow> bool" where
  "startsWith s p = (take (length p) s = p)"

fun includesText :: "string \<Rightarrow> string \<Rightarrow> bool" where
  "includesText [] sub = (sub = [])"
| "includesText (c # cs) sub = (startsWith (c # cs) sub \<or> includesText cs sub)"

text \<open>\<^verbatim>\<open>s.indexOf(c)\<close>: \<open>None\<close> stands for \<open>-1\<close>.\<close>

fun indexOf :: "string \<Rightarrow> char \<Rightarrow> nat option" where
  "indexOf [] c = None"
| "indexOf (x # xs) c = (if x = c then Some 0 else map_option Suc (indexOf xs c))"

text \<open>An optional text is truthy when it is there and not empty.\<close>

fun truthy :: "string option \<Rightarrow> bool" where
  "truthy None = False"
| "truthy (Some s) = (s \<noteq> [])"

text \<open>\<^verbatim>\<open>getFileName\<close>: the last piece of the path split at \<^verbatim>\<open>/\<close> and \<^verbatim>\<open>\\<close>.\<close>

fun getFileName :: "string \<Rightarrow> string" where
  "getFileName [] = []"
| "getFileName (c # cs) =
     (if (CHR ''/'' \<in> set cs \<or> CHR 0x5C \<in> set cs) then getFileName cs
      else if c = CHR ''/'' \<or> c = CHR 0x5C then cs
      else c # cs)"

section \<open>Debugger Session and Variable Harvester: InspectorManager\<close>

subsection \<open>What the debugger reports\<close>

text \<open>
  A \<^verbatim>\<open>Runtime.RemoteObject\<close>. \<open>ro_value\<close> is the text \<^verbatim>\<open>String(value.value)\<close>; for an
  object of type \<^verbatim>\<open>string\<close> that is the string itself.
\<close>

record RemoteObject =
  ro_type :: string
  subtype :: "string option"
  ro_className :: "string option"
  ro_value :: string
  unserializableValue :: "string option"
  description :: "string option"
  objectId :: "string option"

record PropertyDescriptor =
  pd_name :: string
  pd_value :: "RemoteObject option"

text \<open>The answers of \<^verbatim>\<open>Runtime.getProperties\<close> while the host is paused: the own
  properties of each object id. An id without an entry is answered with an error.\<close>

type_synonym RemoteHeap = "(string \<times> PropertyDescriptor list) list"

definition getProperties :: "RemoteHeap \<Rightarrow> string option \<Rightarrow> PropertyDescriptor list option" where
  "getProperties heap oid = (case oid of None \<Rightarrow> None | Some i \<Rightarrow> map_of heap i)"

record Scope =
  scope_type :: string
  scope_objectId :: "string option"

record CallFrame =
  functionName :: string
  scriptId :: string
  cf_lineNumber :: nat
  cf_columnNumber :: nat
  scopeChain :: "Scope list"

record PausedEvent =
  callFrames :: "CallFrame list"
  hitBreakpoints :: "string list option"
  reason :: string
  pause_data :: "RemoteObject option"

subsection \<open>The harvester\<close>

text \<open>The first match of \<^verbatim>\<open>/Array\((\d+)\)/\<close> in a description, read by \<^verbatim>\<open>parseInt\<close>.\<close>

definition array_at :: "string \<Rightarrow> nat option" where
  "array_at s =
     (if startsWith s ''Array('' then
        (let ds = takeWhile is_digit (drop 6 s); r = dropWhile is_digit (drop 6 s)
         in if ds \<noteq> [] \<and> startsWith r '')'' then Some (parseInt ds) else None)
      else None)"

fun array_length_match :: "string \<Rightarrow> nat option" where
  "array_length_match [] = None"
| "array_length_match (c # cs) =
     (case array_at (c # cs) of Some n \<Rightarrow> Some n | None \<Rightarrow> array_length_match cs)"

text \<open>\<^verbatim>\<open>/^\d+$/.test(name)\<close>.\<close>

definition is_index_name :: "string \<Rightarrow> bool" where
  "is_index_name n = (n \<noteq> [] \<and> list_all is_digit n)"

text \<open>Writing the captured properties into a fresh object, in order.\<close>

definition collect :: "(string \<times> CapturedVariable option) list \<Rightarrow> Locals" where
  "collect rs = foldl (\<lambda>acc r. case snd r of None \<Rightarrow> acc | Some cv \<Rightarrow> AList.update (fst r) cv acc) [] rs"

text \<open>
  \<^verbatim>\<open>capturePropertyValue\<close>, \<^verbatim>\<open>getObjectProperties\<close> and \<^verbatim>\<open>getArrayElements\<close>. \<open>session\<close>
  tells whether \<^verbatim>\<open>this.session\<close> is set. The recursion ends because a nested call is
  made one level deeper and only below \<^verbatim>\<open>maxCaptureDepth - 1\<close>.
\<close>

function capturePropertyValue ::
    "AgentConfig \<Rightarrow> bool \<Rightarrow> RemoteHeap \<Rightarrow> PropertyDescriptor \<Rightarrow> int \<Rightarrow> CapturedVariable option"
  and getObjectProperties ::
    "AgentConfig \<Rightarrow> bool \<Rightarrow> RemoteHeap \<Rightarrow> string option \<Rightarrow> int \<Rightarrow> Locals"
  and getArrayElements ::
    "AgentConfig \<Rightarrow> bool \<Rightarrow> RemoteHeap \<Rightarrow> string option \<Rightarrow> int \<Rightarrow> CapturedVariable list"
where
  "capturePropertyValue config session heap prop depth =
     (case pd_value prop of
        None \<Rightarrow> None
      | Some v \<Rightarrow>
          Some
           (if ro_type v = ''undefined'' then
              CapturedVariable (pd_name prop) ''undefined'' ''undefined'' False False None None None
            else if ro_type v = ''boolean'' \<or> ro_type v = ''number'' then
              CapturedVariable (pd_name prop) (ro_type v) (ro_value v) False False None None None
            else if ro_type v = ''string'' then
              (if length (ro_value v) > 500 then
                 CapturedVariable (pd_name prop) (ro_type v) (take 500 (ro_value v)) False True
                   None None None
               else
                 CapturedVariable (pd_name prop) (ro_type v) (ro_value v) False False None None None)
            else if ro_type v = ''symbol'' then
              CapturedVariable (pd_name prop) (ro_type v) (str_or (description v) ''Symbol'')
                False False None None None
            else if ro_type v = ''function'' then
              CapturedVariable (pd_name prop) ''function'' (str_or (description v) ''[Function]'')
                False False None None None
            else if ro_type v = ''object'' then
              (if subtype v = Some ''null'' then
                 CapturedVariable (pd_name prop) ''null'' ''null'' True False None None None
               else if subtype v = Some ''array'' then
                 (let len = (case description v of
                               None \<Rightarrow> 0
                             | Some d \<Rightarrow> (case array_length_match d of None \<Rightarrow> 0 | Some n \<Rightarrow> n));
                      elements =
                        (if depth < maxCaptureDepth config - 1 \<and> truthy (objectId v) \<and> len \<le> 100
                         then getArrayElements config session heap (objectId v) (depth + 1)
                         else [])
                  in CapturedVariable (pd_name prop) ''array'' (str_or (description v) ''[]'')
                       False False None (if elements \<noteq> [] then Some elements else None) (Some len))
               else if subtype v = Some ''error'' then
                 CapturedVariable (pd_name prop) ''error'' (str_or (description v) ''[Error]'')
                   False False None None None
               else if subtype v = Some ''date'' then
                 CapturedVariable (pd_name prop) ''date'' (str_or (description v) ''[Date]'')
                   False False None None None
               else if subtype v = Some ''regexp'' then
                 CapturedVariable (pd_name prop) ''regexp'' (str_or (description v) ''[RegExp]'')
                   False False None None None
               else if subtype v = Some ''map'' then
                 CapturedVariable (pd_name prop) ''map'' (str_or (description v) ''[Map]'')
                   False False None None None
               else if subtype v = Some ''set'' then
                 CapturedVariable (pd_name prop) ''set'' (str_or (description v) ''[Set]'')
                   False False None None None
               else
                 (let kids =
                        (if depth < maxCaptureDepth config - 1 \<and> truthy (objectId v)
                         then getObjectProperties config session heap (objectId v) (depth + 1)
                         else [])
                  in CapturedVariable (pd_name prop) (str_or (ro_className v) ''object'')
                       (str_or (description v) ''{}'') False False
                       (if kids \<noteq> [] then Some kids else None) None None))
            else if ro_type v = ''bigint'' then
              CapturedVariable (pd_name prop) ''bigint''
                (str_or (description v) (str_or (unserializableValue v) ''0n''))
                False False None None None
            else
              CapturedVariable (pd_name prop) (ro_type v) (str_or (description v) (ro_value v))
                False False None None None))"
| "getObjectProperties config session heap oid depth =
     (if \<not> session \<or> depth \<ge> maxCaptureDepth config then []
      else
        (case getProperties heap oid of
           None \<Rightarrow> []
         | Some props \<Rightarrow>
             collect
               (map (\<lambda>prop. (pd_name prop, capturePropertyValue config session heap prop depth))
                  (filter (\<lambda>prop. \<not> (startsWith (pd_name prop) ''__'' \<or> pd_name prop = ''constructor''))
                     props))))"
| "getArrayElements config session heap oid depth =
     (if \<not> session then []
      else
        (case getProperties heap oid of
           None \<Rightarrow> []
         | Some props \<Rightarrow>
             List.map_filter (\<lambda>prop. capturePropertyValue config session heap prop depth)
               (filter (\<lambda>prop. is_index_name (pd_name prop)) props)))"
  by pat_completeness auto
termination
  by (relation "measure (\<lambda>call. case call of
          Inl (config, session, heap, prop, depth) \<Rightarrow> 2 * nat (maxCaptureDepth config - depth)
        | Inr (Inl (config, session, heap, oid, depth)) \<Rightarrow>
            2 * nat (maxCaptureDepth config - depth) + 1
        | Inr (Inr (config, session, heap, oid, depth)) \<Rightarrow>
            2 * nat (maxCaptureDepth config - depth) + 1)")
     auto


subsection \<open>The session state\<close>

record Breakpoint =
  bp_id :: string
  backendId :: string
  bp_lineNumber :: int
  bp_condition :: "string option"

record CachedLocals =
  locals :: Locals
  cl_stackTrace :: "InspectorFrame list"
  cl_timestamp :: int

record CapturedExceptionData =
  ced_stackTrace :: "InspectorFrame list"
  ced_localVariables :: Locals
  ced_capturedAt :: string

datatype DebuggerCommand =
    DebuggerEnable
  | SetPauseOnExceptions
  | SetBreakpointByUrl int string string
  | RemoveBreakpoint string
  | DebuggerDisable
  | DebuggerResume

text \<open>
  \<open>session\<close> tells whether \<^verbatim>\<open>this.session\<close> is set, and \<open>posted\<close> lists the
  \<^verbatim>\<open>Debugger.*\<close> commands given to \<^verbatim>\<open>session.post\<close>, oldest first. The two maps and the
  set keep the insertion order of the host's \<^verbatim>\<open>Map\<close> and \<^verbatim>\<open>Set\<close>; a pending capture is
  kept as its time stamp.
\<close>

record InspectorManager =
  session :: bool
  posted :: "DebuggerCommand list"
  enabled :: bool
  breakpoints :: "(string \<times> Breakpoint) list"
  scriptUrls :: "(string \<times> string) list"
  lastExceptionData :: "CapturedExceptionData option"
  exceptionPauseEnabled :: bool
  sentExceptionFingerprints :: "string list"
  localsCache :: "(string \<times> CachedLocals) list"
  pendingCaptures :: "(string \<times> int) list"
  rateLimitCount :: nat
  rateLimitReset :: int

definition cacheMaxAge :: int where
  "cacheMaxAge = 5000"

definition rateLimitMax :: nat where
  "rateLimitMax = 50"

definition new_InspectorManager :: "int \<Rightarrow> InspectorManager" where
  "new_InspectorManager now =
     \<lparr> session = False, posted = [], enabled = False, breakpoints = [], scriptUrls = [],
       lastExceptionData = None, exceptionPauseEnabled = False, sentExceptionFingerprints = [],
       localsCache = [], pendingCaptures = [], rateLimitCount = 0, rateLimitReset = now \<rparr>"

definition post :: "InspectorManager \<Rightarrow> DebuggerCommand \<Rightarrow> InspectorManager" where
  "post m cmd = m\<lparr>posted := posted m @ [cmd]\<rparr>"

text \<open>\<^verbatim>\<open>this.session?.post(cmd)\<close>.\<close>

definition post_if_session :: "InspectorManager \<Rightarrow> DebuggerCommand \<Rightarrow> InspectorManager" where
  "post_if_session m cmd = (if session m then post m cmd else m)"

text \<open>\<^verbatim>\<open>enable\<close>. \<open>created\<close> is false when opening the session throws; \<open>enableErr\<close> and
  \<open>pauseErr\<close> are the errors the debugger answers the two commands with.\<close>

definition enable :: "InspectorManager \<Rightarrow> bool \<Rightarrow> bool \<Rightarrow> bool \<Rightarrow> InspectorManager" where
  "enable m created enableErr pauseErr =
     (if enabled m then m
      else if \<not> created then m
      else
        let m1 = post (m\<lparr>session := True\<rparr>) DebuggerEnable;
            m2 = (if enableErr then m1
                  else
                    let m' = post m1 SetPauseOnExceptions
                    in if pauseErr then m' else m'\<lparr>exceptionPauseEnabled := True\<rparr>)
        in m2\<lparr>enabled := True\<rparr>)"

definition scriptParsed :: "InspectorManager \<Rightarrow> string \<Rightarrow> string \<Rightarrow> InspectorManager" where
  "scriptParsed m sid url =
     (if url \<noteq> [] then m\<lparr>scriptUrls := AList.update sid url (scriptUrls m)\<rparr> else m)"

definition filePathToRegex :: "string \<Rightarrow> string" where
  "filePathToRegex path =
     ''.*'' @
     concat (map (\<lambda>c. if c = CHR ''/'' then [CHR ''['', CHR 0x5C, CHR 0x5C, CHR ''/'', CHR '']'']
                        else if c \<in> set ''.*+?^${}()|[]'' \<or> c = CHR 0x5C then [CHR 0x5C, c]
                        else [c]) path)
     @ ''$''"

text \<open>\<^verbatim>\<open>setBreakpoint\<close>; \<open>reply\<close> is the debugger's answer: \<open>None\<close> an error, else the
  breakpoint id of the result when it has one.\<close>

definition setBreakpoint ::
  "InspectorManager \<Rightarrow> string \<Rightarrow> string \<Rightarrow> int \<Rightarrow> string option \<Rightarrow> string option option
     \<Rightarrow> InspectorManager" where
  "setBreakpoint m bid path line cond reply =
     (if \<not> enabled m \<or> \<not> session m then m
      else
        let m1 = post m (SetBreakpointByUrl (line - 1) (filePathToRegex path) (str_or cond []))
        in case reply of
             None \<Rightarrow> m1
           | Some None \<Rightarrow> m1
           | Some (Some i) \<Rightarrow>
               if i = [] then m1
               else m1\<lparr>breakpoints :=
                         AList.update bid
                           \<lparr> bp_id = i, backendId = bid, bp_lineNumber = line - 1, bp_condition = cond \<rparr>
                           (breakpoints m1)\<rparr>)"

definition removeBreakpoint :: "InspectorManager \<Rightarrow> string \<Rightarrow> bool \<Rightarrow> InspectorManager" where
  "removeBreakpoint m bid err =
     (if \<not> enabled m \<or> \<not> session m then m
      else
        case map_of (breakpoints m) bid of
          None \<Rightarrow> m
        | Some bp \<Rightarrow>
            let m1 = post m (RemoveBreakpoint (bp_id bp))
            in if err then m1 else m1\<lparr>breakpoints := AList.delete bid (breakpoints m1)\<rparr>)"

text \<open>\<^verbatim>\<open>disable\<close>; \<open>err\<close> tells for each breakpoint whether its removal is answered with
  an error.\<close>

definition disable :: "InspectorManager \<Rightarrow> (string \<Rightarrow> bool) \<Rightarrow> InspectorManager" where
  "disable m err =
     (if \<not> enabled m \<or> \<not> session m then m
      else
        let m1 = foldl (\<lambda>acc bid. removeBreakpoint acc bid (err bid)) m (map fst (breakpoints m))
        in (post m1 DebuggerDisable)\<lparr>session := False, enabled := False\<rparr>)"

subsection \<open>Walking the paused frames\<close>

definition shouldCaptureScope :: "AgentConfig \<Rightarrow> string \<Rightarrow> bool" where
  "shouldCaptureScope config scopeType =
     (if scopeDepth config = 0 then
        scopeType = ''local'' \<or> scopeType = ''catch'' \<or> scopeType = ''block''
      else if scopeDepth config = 1 then
        scopeType = ''local'' \<or> scopeType = ''catch'' \<or> scopeType = ''block''
          \<or> scopeType = ''closure''
      else scopeType \<noteq> ''global'')"

definition isGlobalBuiltin :: "string \<Rightarrow> bool" where
  "isGlobalBuiltin n =
     (n \<in> set [''process'', ''console'', ''global'', ''globalThis'',
                ''module'', ''exports'', ''require'', ''__filename'', ''__dirname'',
                ''Buffer'', ''setImmediate'', ''clearImmediate'',
                ''setInterval'', ''clearInterval'', ''setTimeout'', ''clearTimeout'',
                ''queueMicrotask'', ''performance'', ''fetch'',
                ''arguments'', ''this''])"

definition inspectorFrame :: "InspectorManager \<Rightarrow> CallFrame \<Rightarrow> InspectorFrame" where
  "inspectorFrame m frame =
     (let scriptUrl = str_or (map_of (scriptUrls m) (scriptId frame)) []
      in \<lparr> method_name = str_or (Some (functionName frame)) ''<anonymous>'',
           file_path = scriptUrl,
           file_name = getFileName scriptUrl,
           line_number = cf_lineNumber frame + 1,
           column_number = cf_columnNumber frame,
           is_native = startsWith scriptUrl ''native '',
           source_available =
             (\<not> includesText scriptUrl ''node_modules'' \<and> \<not> startsWith scriptUrl ''node:'') \<rparr>)"

definition framePrefix :: "nat \<Rightarrow> string" where
  "framePrefix i = (if i = 0 then [] else ''frame'' @ show_nat i @ ''.'')"

definition frameLocals ::
  "AgentConfig \<Rightarrow> bool \<Rightarrow> RemoteHeap \<Rightarrow> Locals \<Rightarrow> nat \<times> CallFrame \<Rightarrow> Locals" where
  "frameLocals config sess heap acc numbered =
     (case numbered of (i, frame) \<Rightarrow>
        if int i < maxCaptureDepth config then
          foldl (\<lambda>acc scope.
                   if shouldCaptureScope config (scope_type scope) then
                     foldl (\<lambda>acc entry.
                              if isGlobalBuiltin (fst entry) then acc
                              else AList.update (framePrefix i @ fst entry) (snd entry) acc)
                       acc (getObjectProperties config sess heap (scope_objectId scope) 0)
                   else acc)
            acc (scopeChain frame)
        else acc)"

definition captureCallFramesAsync ::
  "AgentConfig \<Rightarrow> InspectorManager \<Rightarrow> RemoteHeap \<Rightarrow> CallFrame list \<Rightarrow> CapturedData" where
  "captureCallFramesAsync config m heap cfs =
     (let fs = take 50 cfs
      in \<lparr> stack_trace = map (inspectorFrame m) fs,
           local_variables =
             foldl (frameLocals config (session m) heap) [] (zip [0..<length fs] fs) \<rparr>)"

subsection \<open>The pause handler and the two bounded structures\<close>

text \<open>
  What the host supplies while one pause is handled: the remote objects, the reading of
  \<^verbatim>\<open>Date.now()\<close> when the handler is entered and once the harvest is done, the text of
  \<^verbatim>\<open>new Date().toISOString()\<close>, and whether reading the cfs throws.
\<close>

record PauseEnv =
  pe_heap :: RemoteHeap
  t_paused :: int
  t_cached :: int
  pe_iso :: string
  harvestThrows :: bool

definition extractStackKey :: "RemoteObject option \<Rightarrow> int \<Rightarrow> string" where
  "extractStackKey exceptionData now =
     (case exceptionData of
        None \<Rightarrow> ''unknown-'' @ show_int now
      | Some d \<Rightarrow>
          if truthy (description d)
          then join ''|'' (take 4 (split NL (the (description d))))
          else ''unknown-'' @ show_int now)"

definition cleanupCache :: "InspectorManager \<Rightarrow> int \<Rightarrow> InspectorManager" where
  "cleanupCache m now =
     (let kept = filter (\<lambda>entry. \<not> (now - cl_timestamp (snd entry) > cacheMaxAge)) (localsCache m)
      in m\<lparr>localsCache :=
              (if length kept > 100 then
                 (case kept of
                    [] \<Rightarrow> kept
                  | oldest # rest \<Rightarrow> if fst oldest \<noteq> [] then AList.delete (fst oldest) kept else kept)
               else kept)\<rparr>)"

definition captureAndCacheLocals ::
  "AgentConfig \<Rightarrow> InspectorManager \<Rightarrow> CallFrame list \<Rightarrow> string \<Rightarrow> PauseEnv \<Rightarrow> InspectorManager" where
  "captureAndCacheLocals config m cfs stackKey env =
     (if harvestThrows env then m
      else
        let capturedData = captureCallFramesAsync config m (pe_heap env) cfs;
            m1 = m\<lparr>localsCache :=
                      AList.update stackKey
                        \<lparr> locals = local_variables capturedData,
                          cl_stackTrace = stack_trace capturedData,
                          cl_timestamp = t_cached env \<rparr>
                        (localsCache m),
                    lastExceptionData :=
                      Some \<lparr> ced_stackTrace = stack_trace capturedData,
                             ced_localVariables = local_variables capturedData,
                             ced_capturedAt = pe_iso env \<rparr>\<rparr>
        in cleanupCache m1 (t_cached env))"

definition computeFingerprintFromCallFrames :: "CallFrame list \<Rightarrow> RemoteObject option \<Rightarrow> string" where
  "computeFingerprintFromCallFrames cfs exceptionData =
     (let exceptionType =
            (case exceptionData of
               None \<Rightarrow> ''Error''
             | Some d \<Rightarrow>
                 if truthy (ro_className d) then the (ro_className d)
                 else if truthy (description d) then
                   (case indexOf (the (description d)) (CHR '':'') of
                      None \<Rightarrow> ''Error''
                    | Some colonIndex \<Rightarrow>
                        if colonIndex > 0 then trim (take colonIndex (the (description d)))
                        else ''Error'')
                 else ''Error'');
          lineNumbers = map (\<lambda>f. cf_lineNumber f + 1) (take 3 cfs)
      in exceptionType @ ''|'' @ join ''|'' (map show_nat lineNumbers))"

text \<open>The lines of \<^verbatim>\<open>handlePaused\<close> that record a fingerprint as sent.\<close>

definition addSentFingerprint :: "InspectorManager \<Rightarrow> string \<Rightarrow> InspectorManager" where
  "addSentFingerprint m fp =
     (let added = (if fp \<in> set (sentExceptionFingerprints m) then sentExceptionFingerprints m
                   else sentExceptionFingerprints m @ [fp])
      in m\<lparr>sentExceptionFingerprints :=
              (if length added > 100 then
                 (case added of
                    [] \<Rightarrow> added
                  | first # rest \<Rightarrow> if first \<noteq> [] then removeAll first added else added)
               else added)\<rparr>)"

definition hitBackendId :: "InspectorManager \<Rightarrow> string list option \<Rightarrow> string option" where
  "hitBackendId m hits =
     (case hits of
        None \<Rightarrow> None
      | Some hs \<Rightarrow>
          if length hs > 0
          then map_option fst (find (\<lambda>entry. bp_id (snd entry) \<in> set hs) (breakpoints m))
          else None)"

text \<open>
  \<^verbatim>\<open>handlePaused\<close>, with the continuation of the capture promise run to its end: the
  host serves one pause at a time. The \<^verbatim>\<open>catch\<close> continuations are not reached, since
  \<^verbatim>\<open>captureAndCacheLocals\<close> swallows what the harvest throws and nothing else in the
  \<^verbatim>\<open>then\<close> continuation throws on a well-formed event.
\<close>

definition handlePaused ::
  "AgentConfig \<Rightarrow> InspectorManager \<times> BackendConnection \<Rightarrow> PausedEvent \<times> PauseEnv
     \<Rightarrow> InspectorManager \<times> BackendConnection" where
  "handlePaused config state pause =
     (case state of (m, conn) \<Rightarrow> case pause of (event, env) \<Rightarrow>
      if \<not> session m then (m, conn)
      else if reason event = ''exception'' \<or> reason event = ''promiseRejection'' then
        (let now = t_paused env;
             m1 = (if now > rateLimitReset m
                   then m\<lparr>rateLimitCount := 0, rateLimitReset := now + 1000\<rparr> else m);
             m2 = m1\<lparr>rateLimitCount := rateLimitCount m1 + 1\<rparr>
         in if rateLimitCount m2 > rateLimitMax then (post m2 DebuggerResume, conn)
            else
              let stackKey = extractStackKey (pause_data event) now;
                  m3 = m2\<lparr>pendingCaptures := AList.update stackKey now (pendingCaptures m2)\<rparr>;
                  m4 = captureAndCacheLocals config m3 (callFrames event) stackKey env;
                  m5 = m4\<lparr>pendingCaptures := AList.delete stackKey (pendingCaptures m4)\<rparr>;
                  m6 = (if reason event = ''exception''
                        then addSentFingerprint m5
                               (computeFingerprintFromCallFrames (callFrames event) (pause_data event))
                        else m5)
              in (post_if_session m6 DebuggerResume, conn))
      else
        (case hitBackendId m (hitBreakpoints event) of
           Some bid \<Rightarrow>
             if bid \<noteq> [] then
               (if harvestThrows env then (post_if_session m DebuggerResume, conn)
                else
                  (post_if_session m DebuggerResume,
                   sendBreakpointHit config conn bid (pe_iso env)
                     (captureCallFramesAsync config m (pe_heap env) (callFrames event))
                     (t_cached env)))
             else (post m DebuggerResume, conn)
         | None \<Rightarrow> (post m DebuggerResume, conn)))"

definition handlePaused_all ::
  "AgentConfig \<Rightarrow> InspectorManager \<times> BackendConnection \<Rightarrow> (PausedEvent \<times> PauseEnv) list
     \<Rightarrow> InspectorManager \<times> BackendConnection" where
  "handlePaused_all config state pauses = foldl (handlePaused config) state pauses"


subsection \<open>What the Exception Pipeline asks of the session\<close>

record JsError =
  err_name :: string
  err_message :: string
  err_stack :: "string option"

text \<open>The first lines of \<^verbatim>\<open>getLocalsForError\<close>: no key for an error without stack
  text, else the key made from its first four lines.\<close>

definition stackKeyOfError :: "JsError \<Rightarrow> string option" where
  "stackKeyOfError error =
     (if \<not> truthy (err_stack error) then None
      else Some (join ''|'' (take 4 (split NL (the (err_stack error))))))"

text \<open>\<^verbatim>\<open>getLocalsForError\<close>; \<open>now\<close> is the reading of \<^verbatim>\<open>Date.now()\<close> when the cache is
  looked up, after the wait for a pending capture, if there was one.\<close>

definition getLocalsForError ::
  "InspectorManager \<Rightarrow> JsError \<Rightarrow> int
     \<Rightarrow> (Locals \<times> InspectorFrame list) option \<times> InspectorManager" where
  "getLocalsForError m error now =
     (case stackKeyOfError error of
        None \<Rightarrow> (None, m)
      | Some stackKey \<Rightarrow>
          (case map_of (localsCache m) stackKey of
             None \<Rightarrow> (None, m)
           | Some cached \<Rightarrow>
               if now - cl_timestamp cached < cacheMaxAge
               then (Some (locals cached, cl_stackTrace cached),
                     m\<lparr>localsCache := AList.delete stackKey (localsCache m)\<rparr>)
               else (None, m)))"

definition wasExceptionSentByInspector ::
  "InspectorManager \<Rightarrow> string \<Rightarrow> StackFrame list \<Rightarrow> bool" where
  "wasExceptionSentByInspector m exType trace =
     (let lineNumbers = map (\<lambda>f. case lineNumber f of None \<Rightarrow> 0 | Some n \<Rightarrow> n) (take 3 trace);
          fp = exType @ ''|'' @ join ''|'' (map show_nat lineNumbers)
      in fp \<in> set (sentExceptionFingerprints m))"

definition getLastExceptionData ::
  "InspectorManager \<Rightarrow> CapturedExceptionData option \<times> InspectorManager" where
  "getLastExceptionData m = (lastExceptionData m, m\<lparr>lastExceptionData := None\<rparr>)"

definition isExceptionPauseEnabled :: "InspectorManager \<Rightarrow> bool" where
  "isExceptionPauseEnabled m = exceptionPauseEnabled m"


section \<open>Exception Pipeline: ExceptionHandler\<close>

subsection \<open>Parsing the stack text\<close>

text \<open>The characters the pattern \<^verbatim>\<open>.\<close> matches: all but the line terminators.\<close>

definition is_dot :: "char \<Rightarrow> bool" where
  "is_dot c = (c \<noteq> CHR 0x0A \<and> c \<noteq> CHR 0x0D)"

text \<open>A match of \<^verbatim>\<open>\s+\((.+)\)$\<close> at the start of a text: the location between the
  parentheses.\<close>

definition locationTail :: "string \<Rightarrow> string option" where
  "locationTail rest =
     (let r = dropWhile is_space rest
      in if takeWhile is_space rest \<noteq> [] \<and> length r \<ge> 3 \<and> hd r = CHR ''('' \<and> last r = CHR '')''
            \<and> list_all is_dot (butlast (tl r))
         then Some (butlast (tl r)) else None)"

text \<open>The lazy group \<^verbatim>\<open>(.+?)\<close> followed by the tail: the shortest name that lets the
  rest match.\<close>

fun lazyName :: "string \<Rightarrow> string \<Rightarrow> (string \<times> string) option" where
  "lazyName pre [] = None"
| "lazyName pre (c # cs) =
     (if \<not> is_dot c then None
      else (case locationTail cs of
              Some loc \<Rightarrow> Some (pre @ [c], loc)
            | None \<Rightarrow> lazyName (pre @ [c]) cs))"

text \<open>The optional group \<^verbatim>\<open>(?:async\s+)?\<close>: the greedy \<^verbatim>\<open>\s+\<close> gives back one
  character at a time.\<close>

fun afterAsync :: "string \<Rightarrow> nat \<Rightarrow> (string \<times> string) option" where
  "afterAsync rest 0 = None"
| "afterAsync rest (Suc j) =
     (case lazyName [] (drop (Suc j) rest) of
        Some r \<Rightarrow> Some r
      | None \<Rightarrow> afterAsync rest j)"

text \<open>\<^verbatim>\<open>content.match(/^(?:async\s+)?(.+?)\s+\((.+)\)$/)\<close>: the method name and the
  location.\<close>

definition funcMatch :: "string \<Rightarrow> (string \<times> string) option" where
  "funcMatch content =
     (case (if startsWith content ''async''
            then afterAsync (drop 5 content) (length (takeWhile is_space (drop 5 content)))
            else None) of
        Some r \<Rightarrow> Some r
      | None \<Rightarrow> lazyName [] content)"

text \<open>\<^verbatim>\<open>text.match(/^(.+):(\d+):(\d+)$/)\<close>: the path, the line and the column.\<close>

definition locationMatch :: "string \<Rightarrow> (string \<times> nat \<times> nat) option" where
  "locationMatch s =
     (let r = rev s;
          col = takeWhile is_digit r;
          r1 = dropWhile is_digit r;
          lno = takeWhile is_digit (drop 1 r1);
          r2 = dropWhile is_digit (drop 1 r1);
          path = drop 1 r2
      in if col \<noteq> [] \<and> startsWith r1 '':'' \<and> lno \<noteq> [] \<and> startsWith r2 '':'' \<and> path \<noteq> []
            \<and> list_all is_dot path
         then Some (rev path, parseInt (rev lno), parseInt (rev col))
         else None)"

text \<open>\<^verbatim>\<open>s.replace(sub, '')\<close> for a text \<open>sub\<close>: the first occurrence goes.\<close>

fun removeFirst :: "string \<Rightarrow> string \<Rightarrow> string" where
  "removeFirst [] sub = []"
| "removeFirst (c # cs) sub =
     (if startsWith (c # cs) sub then drop (length sub) (c # cs) else c # removeFirst cs sub)"

definition parseLocation :: "string \<Rightarrow> string \<Rightarrow> StackFrame" where
  "parseLocation name location =
     (if location = ''native'' \<or> includesText location ''[native code]'' then
        \<lparr> className = None, methodName = name, fileName = None, filePath = None,
          lineNumber = None, columnNumber = None, isNative = True, sourceAvailable = False \<rparr>
      else
        (case locationMatch location of
           Some (path, lno, col) \<Rightarrow>
             \<lparr> className = None, methodName = name, fileName = Some (getFileName path),
               filePath = Some path, lineNumber = Some lno, columnNumber = Some col,
               isNative = False,
               sourceAvailable =
                 (\<not> includesText path ''node_modules'' \<and> \<not> startsWith path ''node:'') \<rparr>
         | None \<Rightarrow>
             \<lparr> className = None, methodName = name, fileName = None, filePath = Some location,
               lineNumber = None, columnNumber = None, isNative = False,
               sourceAvailable = False \<rparr>))"

definition parseStackFrame :: "string \<Rightarrow> StackFrame option" where
  "parseStackFrame line =
     (let trimmed = trim line in
      if \<not> startsWith trimmed ''at '' then None
      else
        let content = drop 3 trimmed in
        case funcMatch content of
          Some (name, location) \<Rightarrow> Some (parseLocation name location)
        | None \<Rightarrow>
            (case locationMatch content of
               Some (path, lno, col) \<Rightarrow>
                 Some \<lparr> className = None, methodName = ''<anonymous>'',
                        fileName = Some (getFileName path), filePath = Some path,
                        lineNumber = Some lno, columnNumber = Some col, isNative = False,
                        sourceAvailable = True \<rparr>
             | None \<Rightarrow>
                 if includesText content ''[native code]'' \<or> content = ''native'' then
                   Some \<lparr> className = None, methodName = removeFirst content '' [native code]'',
                          fileName = None, filePath = None, lineNumber = None,
                          columnNumber = None, isNative = True, sourceAvailable = False \<rparr>
                 else
                   Some \<lparr> className = None, methodName = content, fileName = None,
                          filePath = None, lineNumber = None, columnNumber = None,
                          isNative = False, sourceAvailable = False \<rparr>))"

definition parseStackTrace :: "JsError \<Rightarrow> StackFrame list" where
  "parseStackTrace error =
     take 50 (List.map_filter parseStackFrame (drop 1 (split NL (str_or (err_stack error) []))))"

text \<open>\<^verbatim>\<open>calculateFingerprint\<close>; \<open>sha256hex\<close> is the hexadecimal digest of the host's
  \<^verbatim>\<open>crypto\<close> module.\<close>

definition calculateFingerprint ::
  "(string \<Rightarrow> string) \<Rightarrow> JsError \<Rightarrow> StackFrame list \<Rightarrow> string" where
  "calculateFingerprint sha256hex error trace =
     (let parts = str_or (Some (err_name error)) ''Error'' #
            map (\<lambda>f. methodName f @ '':'' @
                       show_nat (case lineNumber f of None \<Rightarrow> 0 | Some n \<Rightarrow> n))
              (take 5 (filter (\<lambda>f. \<not> isNative f) trace))
      in take 16 (sha256hex (join '':'' parts)))"

subsection \<open>The handler\<close>

text \<open>\<open>hasInspector\<close> tells whether \<^verbatim>\<open>setInspectorManager\<close> has been called; the two
  \<open>original\<close> fields tell whether a listener was there before \<^verbatim>\<open>install\<close>.\<close>

record ExceptionHandler =
  installed :: bool
  hasInspector :: bool
  originalUncaughtException :: bool
  originalUnhandledRejection :: bool

definition new_ExceptionHandler :: ExceptionHandler where
  "new_ExceptionHandler =
     \<lparr> installed = False, hasInspector = False, originalUncaughtException = False,
       originalUnhandledRejection = False \<rparr>"

definition setInspectorManager :: "ExceptionHandler \<Rightarrow> ExceptionHandler" where
  "setInspectorManager h = h\<lparr>hasInspector := True\<rparr>"

definition install :: "ExceptionHandler \<Rightarrow> bool \<Rightarrow> bool \<Rightarrow> ExceptionHandler" where
  "install h priorUncaught priorRejection =
     (if installed h then h
      else h\<lparr>originalUncaughtException := priorUncaught,
              originalUnhandledRejection := priorRejection, installed := True\<rparr>)"

definition uninstall :: "ExceptionHandler \<Rightarrow> ExceptionHandler" where
  "uninstall h = (if \<not> installed h then h else h\<lparr>installed := False\<rparr>)"

text \<open>
  What the host supplies while one exception is reported: the value of
  \<^verbatim>\<open>Math.random()\<close>, the id of \<^verbatim>\<open>crypto.randomUUID()\<close>, the text of
  \<^verbatim>\<open>new Date().toISOString()\<close>, the digest function, and the readings of \<^verbatim>\<open>Date.now()\<close>
  when the cache is looked up and when the message is sent.
\<close>

record CaptureEnv =
  rnd :: real
  uuid :: string
  ce_iso :: string
  sha256hex :: "string \<Rightarrow> string"
  t_lookup :: int
  t_send :: int

text \<open>The three objects a handler works on: the session, the connection and the shared
  configuration.\<close>

type_synonym Pipeline = "InspectorManager \<times> BackendConnection"

definition mergeContext :: "Context \<Rightarrow> Context \<Rightarrow> Context" where
  "mergeContext base extra = foldl (\<lambda>acc entry. AList.update (fst entry) (snd entry) acc) base extra"

definition createCapture ::
  "AgentConfig \<Rightarrow> ExceptionHandler \<Rightarrow> InspectorManager \<Rightarrow> JsError \<Rightarrow> Context \<Rightarrow> CaptureEnv
     \<Rightarrow> ExceptionCapture \<times> InspectorManager" where
  "createCapture config h m error ctx env =
     (let trace = parseStackTrace error;
          fp = calculateFingerprint (sha256hex env) error trace;
          looked = (if hasInspector h \<and> isExceptionPauseEnabled m
                    then getLastExceptionData m else (None, m));
          vars = (case fst looked of None \<Rightarrow> [] | Some d \<Rightarrow> ced_localVariables d)
      in (\<lparr> ec_id = uuid env,
             exceptionType = str_or (Some (err_name error)) ''Error'',
             ec_message = err_message error,
             fingerprint = fp,
             stackTrace = trace,
             localVariables = vars,
             ec_context =
               AList.update ''user'' (UserValue (getUser config))
                 (mergeContext (getCustomContext config) ctx),
             capturedAt = ce_iso env \<rparr>,
          snd looked))"

text \<open>The body shared by \<^verbatim>\<open>capture\<close>, \<^verbatim>\<open>handleUncaughtException\<close> and
  \<^verbatim>\<open>handleUnhandledRejection\<close>, which differ in the error and the context they pass.\<close>

definition capture ::
  "AgentConfig \<Rightarrow> ExceptionHandler \<Rightarrow> Pipeline \<Rightarrow> JsError \<Rightarrow> Context \<Rightarrow> CaptureEnv \<Rightarrow> Pipeline" where
  "capture config h state error ctx env =
     (case state of (m, conn) \<Rightarrow>
      if \<not> shouldSample config (rnd env) then (m, conn)
      else
        let made = createCapture config h m error ctx env;
            found = (if hasInspector h then getLocalsForError (snd made) error (t_lookup env)
                     else (None, snd made));
            cap = (case fst found of
                     None \<Rightarrow> fst made
                   | Some cachedData \<Rightarrow> (fst made)\<lparr>localVariables := fst cachedData\<rparr>)
        in (snd found, sendException config conn cap (t_send env)))"

definition handleUncaughtException ::
  "AgentConfig \<Rightarrow> ExceptionHandler \<Rightarrow> Pipeline \<Rightarrow> JsError \<Rightarrow> string \<Rightarrow> CaptureEnv \<Rightarrow> Pipeline" where
  "handleUncaughtException config h state error origin env =
     (case state of (m, conn) \<Rightarrow>
      if \<not> shouldSample config (rnd env) then (m, conn)
      else
        let made = createCapture config h m error [(''origin'', Opaque origin)] env;
            found = (if hasInspector h then getLocalsForError (snd made) error (t_lookup env)
                     else (None, snd made));
            cap = (case fst found of
                     None \<Rightarrow> fst made
                   | Some cachedData \<Rightarrow> (fst made)\<lparr>localVariables := fst cachedData\<rparr>)
        in (snd found, sendException config conn cap (t_send env)))"

text \<open>A rejection reason: an error, or another value with its text \<^verbatim>\<open>String(reason)\<close> and
  the stack text the new \<^verbatim>\<open>Error\<close> made from it gets.\<close>

datatype Reason = ReasonError JsError | ReasonOther string "string option"

definition reasonError :: "Reason \<Rightarrow> JsError" where
  "reasonError r =
     (case r of
        ReasonError e \<Rightarrow> e
      | ReasonOther text st \<Rightarrow> \<lparr> err_name = ''Error'', err_message = text, err_stack = st \<rparr>)"

definition handleUnhandledRejection ::
  "AgentConfig \<Rightarrow> ExceptionHandler \<Rightarrow> Pipeline \<Rightarrow> Reason \<Rightarrow> CaptureEnv \<Rightarrow> Pipeline" where
  "handleUnhandledRejection config h state r env =
     (case state of (m, conn) \<Rightarrow>
      if \<not> shouldSample config (rnd env) then (m, conn)
      else
        let error = reasonError r;
            made = createCapture config h m error [(''type'', Opaque ''unhandledRejection'')] env;
            found = (if hasInspector h then getLocalsForError (snd made) error (t_lookup env)
                     else (None, snd made));
            cap = (case fst found of
                     None \<Rightarrow> fst made
                   | Some cachedData \<Rightarrow> (fst made)\<lparr>localVariables := fst cachedData\<rparr>)
        in (snd found, sendException config conn cap (t_send env)))"

text \<open>The two listeners of \<^verbatim>\<open>install\<close>: the handler, then the listener that was there
  before, or the exit after 500 ms.\<close>

datatype HostEffect = ChainUncaught | ChainRejection | ExitAfter nat

definition uncaughtExceptionListener ::
  "AgentConfig \<Rightarrow> ExceptionHandler \<Rightarrow> Pipeline \<Rightarrow> JsError \<Rightarrow> string \<Rightarrow> CaptureEnv
     \<Rightarrow> Pipeline \<times> HostEffect list" where
  "uncaughtExceptionListener config h state error origin env =
     (handleUncaughtException config h state error origin env,
      if originalUncaughtException h then [ChainUncaught] else [ExitAfter 500])"

definition unhandledRejectionListener ::
  "AgentConfig \<Rightarrow> ExceptionHandler \<Rightarrow> Pipeline \<Rightarrow> Reason \<Rightarrow> CaptureEnv
     \<Rightarrow> Pipeline \<times> HostEffect list" where
  "unhandledRejectionListener config h state r env =
     (handleUnhandledRejection config h state r env,
      if originalUnhandledRejection h then [ChainRejection] else [])"

section \<open>The public surface: index.ts\<close>

text \<open>
  The module's variables. \<open>moduleConfig\<close> is the module variable \<^verbatim>\<open>config\<close>; \<open>heldConfig\<close> is the
  configuration object the three components were built with (the same object while the
  agent is initialized). \<open>processListeners\<close> counts the \<^verbatim>\<open>beforeExit\<close>, \<^verbatim>\<open>SIGTERM\<close> and
  \<^verbatim>\<open>SIGINT\<close> listeners registered so far.
\<close>

record Agent =
  initialized :: bool
  moduleConfig :: "AgentConfig option"
  heldConfig :: "AgentConfig option"
  connection :: "BackendConnection option"
  exceptionHandler :: "ExceptionHandler option"
  inspectorManager :: "InspectorManager option"
  processListeners :: nat

definition new_Agent :: Agent where
  "new_Agent =
     \<lparr> initialized = False, moduleConfig = None, heldConfig = None, connection = None,
       exceptionHandler = None, inspectorManager = None, processListeners = 0 \<rparr>"

text \<open>What the host answers during \<^verbatim>\<open>init\<close>.\<close>

record InitEnv =
  processEnv :: ProcessEnv
  t_init :: int
  sessionCreated :: bool
  enableErr :: bool
  pauseErr :: bool
  socketCreated :: bool
  priorUncaught :: bool
  priorRejection :: bool

definition init :: "Agent \<Rightarrow> ConfigOptions \<Rightarrow> InitEnv \<Rightarrow> Agent" where
  "init a options env =
     (if initialized a then a
      else
        let cfg = new_AgentConfig options (processEnv env);
            a1 = a\<lparr>moduleConfig := Some cfg\<rparr>
        in if apiKey cfg = [] then a1
           else
             a1\<lparr>heldConfig := Some cfg,
                 connection := Some (connect new_BackendConnection (socketCreated env)),
                 inspectorManager :=
                   Some (enable (new_InspectorManager (t_init env)) (sessionCreated env)
                           (enableErr env) (pauseErr env)),
                 exceptionHandler :=
                   Some (install (setInspectorManager new_ExceptionHandler)
                           (priorUncaught env) (priorRejection env)),
                 processListeners := processListeners a1 + 3,
                 initialized := True\<rparr>)"

definition captureException :: "Agent \<Rightarrow> JsError \<Rightarrow> Context \<Rightarrow> CaptureEnv \<Rightarrow> Agent" where
  "captureException a error ctx env =
     (if \<not> initialized a then a
      else
        (case (exceptionHandler a, inspectorManager a, connection a, heldConfig a) of
           (Some h, Some m, Some conn, Some cfg) \<Rightarrow>
             (let state = capture cfg h (m, conn) error ctx env
              in a\<lparr>inspectorManager := Some (fst state), connection := Some (snd state)\<rparr>)
         | _ \<Rightarrow> a))"

definition setContext :: "Agent \<Rightarrow> Context \<Rightarrow> Agent" where
  "setContext a ctx =
     (if \<not> initialized a then a
      else
        (case moduleConfig a of
           None \<Rightarrow> a
         | Some cfg \<Rightarrow>
             a\<lparr>moduleConfig := Some (setCustomContext cfg ctx),
                heldConfig := Some (setCustomContext cfg ctx)\<rparr>))"

definition shutdown :: "Agent \<Rightarrow> (string \<Rightarrow> bool) \<Rightarrow> Agent" where
  "shutdown a err =
     (if \<not> initialized a then a
      else
        a\<lparr>exceptionHandler := map_option uninstall (exceptionHandler a),
           inspectorManager := map_option (\<lambda>m. disable m err) (inspectorManager a),
           connection := map_option disconnect (connection a),
           initialized := False\<rparr>)"

definition isInitialized :: "Agent \<Rightarrow> bool" where
  "isInitialized a = initialized a"

text \<open>Every frame the agent has handed to a socket or holds in its queue.\<close>

definition outbound :: "Agent \<Rightarrow> Message list" where
  "outbound a = (case connection a of None \<Rightarrow> [] | Some c \<Rightarrow> frames c @ messageQueue c)"


section \<open>Worked examples\<close>

text \<open>Values for the worked examples.\<close>

definition example_env :: ProcessEnv where
  "example_env =
     \<lparr> AIVORY_API_KEY = None, AIVORY_BACKEND_URL = None, AIVORY_ENVIRONMENT = None,
       AIVORY_SAMPLING_RATE = None, AIVORY_MAX_DEPTH = None, AIVORY_MAX_STRING_LENGTH = None,
       AIVORY_MAX_COLLECTION_SIZE = None, AIVORY_ENABLE_BREAKPOINTS = None,
       AIVORY_ENABLE_SOURCEMAPS = None, AIVORY_DEBUG = None, AIVORY_SCOPE_DEPTH = None,
       os_hostname = ''host'', generatedAgentId = ''agent-1-00000000'',
       resolvedGitContext = None, runtimeVersion = ''v20.0.0'', platform = ''linux'',
       arch = ''x64'' \<rparr>"

definition example_options :: ConfigOptions where
  "example_options =
     \<lparr> opt_apiKey = Some ''key'', opt_backendUrl = None, opt_environment = None,
       opt_samplingRate = None, opt_maxCaptureDepth = None, opt_maxStringLength = None,
       opt_maxCollectionSize = None, opt_enableBreakpoints = None, opt_enableSourceMaps = None,
       opt_debug = None, opt_scopeDepth = None \<rparr>"

definition example_config :: AgentConfig where
  "example_config = new_AgentConfig example_options example_env"

definition envelope :: "string \<times> Payload \<times> int \<Rightarrow> Message" where
  "envelope m = (case m of (ty, p, now) \<Rightarrow> \<lparr> msg_type = ty, msg_payload = p, msg_timestamp = now \<rparr>)"

definition example_stack :: string where
  "example_stack = ''Error: boom'' @ [NL] @ ''    at foo (/app/a.js:10:5)''"

definition example_error :: JsError where
  "example_error = \<lparr> err_name = ''Error'', err_message = ''boom'', err_stack = Some example_stack \<rparr>"

definition primitive :: "string \<Rightarrow> string \<Rightarrow> RemoteObject" where
  "primitive ty text =
     \<lparr> ro_type = ty, subtype = None, ro_className = None, ro_value = text,
       unserializableValue = None, description = None, objectId = None \<rparr>"

definition example_heap :: RemoteHeap where
  "example_heap =
     [(''scope1'',
       [\<lparr> pd_name = ''x'', pd_value = Some (primitive ''number'' ''42'') \<rparr>,
        \<lparr> pd_name = ''y'', pd_value = Some (primitive ''string'' ''hello'') \<rparr>])]"

definition example_pause :: PausedEvent where
  "example_pause =
     \<lparr> callFrames =
         [\<lparr> functionName = ''foo'', scriptId = ''7'', cf_lineNumber = 9, cf_columnNumber = 4,
            scopeChain = [\<lparr> scope_type = ''local'', scope_objectId = Some ''scope1'' \<rparr>] \<rparr>],
       hitBreakpoints = None,
       reason = ''exception'',
       pause_data =
         Some \<lparr> ro_type = ''object'', subtype = Some ''error'', ro_className = Some ''Error'',
                ro_value = ''undefined'', unserializableValue = None,
                description = Some example_stack, objectId = Some ''error1'' \<rparr> \<rparr>"

definition example_pause_env :: PauseEnv where
  "example_pause_env =
     \<lparr> pe_heap = example_heap, t_paused = 1000, t_cached = 1001,
       pe_iso = ''2026-01-01T00:00:01.001Z'', harvestThrows = False \<rparr>"

definition example_manager :: InspectorManager where
  "example_manager = enable (new_InspectorManager 0) True False False"

definition example_handler :: ExceptionHandler where
  "example_handler = install (setInspectorManager new_ExceptionHandler) False False"

definition example_capture_env :: CaptureEnv where
  "example_capture_env =
     \<lparr> rnd = 0, uuid = ''00000000-0000-4000-8000-000000000000'',
       ce_iso = ''2026-01-01T00:00:01.005Z'', sha256hex = (\<lambda>text. replicate 64 (CHR ''0'')),
       t_lookup = 1005, t_send = 1006 \<rparr>"

text \<open>The session after the debugger paused on the example error and was resumed.\<close>

definition example_after_pause :: InspectorManager where
  "example_after_pause =
     fst (handlePaused example_config (example_manager, new_BackendConnection)
            (example_pause, example_pause_env))"

definition example_init_env :: InitEnv where
  "example_init_env =
     \<lparr> processEnv = example_env, t_init = 0, sessionCreated = True, enableErr = False,
       pauseErr = False, socketCreated = True, priorUncaught = False, priorRejection = False \<rparr>"

definition example_array_heap :: RemoteHeap where
  "example_array_heap =
     [(''array1'',
       [\<lparr> pd_name = ''0'', pd_value = Some (primitive ''number'' ''1'') \<rparr>,
        \<lparr> pd_name = ''1'', pd_value = Some (primitive ''number'' ''2'') \<rparr>,
        \<lparr> pd_name = ''2'', pd_value = Some (primitive ''number'' ''3'') \<rparr>,
        \<lparr> pd_name = ''length'', pd_value = Some (primitive ''number'' ''3'') \<rparr>])]"

definition example_array :: PropertyDescriptor where
  "example_array =
     \<lparr> pd_name = ''xs'',
       pd_value =
         Some \<lparr> ro_type = ''object'', subtype = Some ''array'', ro_className = Some ''Array'',
                ro_value = ''undefined'', unserializableValue = None,
                description = Some ''Array(3)'', objectId = Some ''array1'' \<rparr> \<rparr>"

definition example_sends :: "nat \<Rightarrow> (string \<times> Payload \<times> int) list" where
  "example_sends n =
     map (\<lambda>i. (''heartbeat'', HeartbeatPayload (int i) ''agent-1-00000000'', int i)) [0..<n]"

text \<open>A connection whose socket has opened and that holds two frames in its queue, not
  yet registered.\<close>

definition example_waiting :: BackendConnection where
  "example_waiting =
     send_all (on_open example_config (connect new_BackendConnection True) 5) (example_sends 2)"


definition example_full_manager :: InspectorManager where
  "example_full_manager =
     example_manager
       \<lparr>localsCache :=
          map (\<lambda>i. (replicate (Suc i) (CHR ''k''),
                     \<lparr> locals = [], cl_stackTrace = [], cl_timestamp = 1000 \<rparr>)) [0..<100],
        sentExceptionFingerprints := map (\<lambda>i. replicate (Suc i) (CHR ''f'')) [0..<100]\<rparr>"

section \<open>Invariants of the two bounded structures\<close>

text \<open>The keys of the locals cache are distinct and not empty, and there are at most 100;
  the same for the fingerprints of the deduplication set.\<close>

definition cache_ok :: "InspectorManager \<Rightarrow> bool" where
  "cache_ok m = (distinct (map fst (localsCache m)) \<and> [] \<notin> fst ` set (localsCache m)
                  \<and> length (localsCache m) \<le> 100)"

definition dedup_ok :: "InspectorManager \<Rightarrow> bool" where
  "dedup_ok m = (distinct (sentExceptionFingerprints m) \<and> [] \<notin> set (sentExceptionFingerprints m)
                  \<and> length (sentExceptionFingerprints m) \<le> 100)"



section \<open>Transport: the outbound queue, the drain and the reconnect schedule\<close>

subsection \<open>The queue holds at most 100 frames\<close>

lemma send_queue_bound:
  "length (messageQueue c) \<le> 100 \<Longrightarrow> length (messageQueue (send c ty p now)) \<le> 100"
  by (simp add: send_def Let_def)

lemma scheduleReconnect_queue [simp]: "messageQueue (scheduleReconnect c) = messageQueue c"
  by (simp add: scheduleReconnect_def Let_def)

lemma stopHeartbeat_queue [simp]: "messageQueue (stopHeartbeat c) = messageQueue c"
  by (simp add: stopHeartbeat_def)

lemma disconnect_queue [simp]: "messageQueue (disconnect c) = messageQueue c"
  by (simp add: disconnect_def Let_def split: option.splits)

lemma handleMessage_queue_bound:
  "length (messageQueue c) \<le> 100 \<Longrightarrow> length (messageQueue (handleMessage c data)) \<le> 100"
  by (auto simp: handleMessage_def handleRegistered_def handleError_def Let_def
      split: option.splits InPayload.splits)

lemma transport_step_queue_bound:
  "length (messageQueue c) \<le> 100 \<Longrightarrow> length (messageQueue (transport_step config c ev)) \<le> 100"
  by (cases ev)
     (simp_all add: connect_def on_open_def authenticate_def on_message_def
        handleMessage_queue_bound on_close_def heartbeat_tick_def send_queue_bound
        sendException_def sendBreakpointHit_def Let_def split: option.splits)

lemma transport_run_queue_bound:
  "length (messageQueue c) \<le> 100 \<Longrightarrow> length (messageQueue (transport_run config c evs)) \<le> 100"
  unfolding transport_run_def
  by (induction evs arbitrary: c) (simp_all add: transport_step_queue_bound)

lemma send_queued:
  "\<not> (socketOpen c \<and> authenticated c) \<Longrightarrow>
   send c ty p now =
     c\<lparr>messageQueue := (if length (messageQueue c) \<ge> 100 then tl (messageQueue c @ [envelope (ty, p, now)])
                         else messageQueue c @ [envelope (ty, p, now)])\<rparr>"
  by (auto simp: send_def Let_def envelope_def)

lemma send_all_snoc:
  "send_all c (ms @ [(ty, p, now)]) = send (send_all c ms) ty p now"
  by (simp add: send_all_def)

lemma send_all_keeps_socket:
  "\<not> (socketOpen c \<and> authenticated c) \<Longrightarrow>
   ws (send_all c ms) = ws c \<and> authenticated (send_all c ms) = authenticated c"
proof (induction ms rule: rev_induct)
  case Nil
  then show ?case by (simp add: send_all_def)
next
  case (snoc m ms)
  obtain ty p now where m: "m = (ty, p, now)" by (cases m) auto
  from snoc have "\<not> (socketOpen (send_all c ms) \<and> authenticated (send_all c ms))"
    by (simp add: socketOpen_def)
  then show ?case using snoc by (simp add: m send_all_snoc send_queued)
qed

lemma send_all_queue:
  assumes nd: "\<not> (socketOpen c \<and> authenticated c)" and len: "length (messageQueue c) \<le> 100"
  shows "messageQueue (send_all c ms) =
     drop (length (messageQueue c) + length ms - 100) (messageQueue c @ map envelope ms)"
proof (induction ms rule: rev_induct)
  case Nil
  then show ?case using len by (simp add: send_all_def)
next
  case (snoc m ms)
  obtain ty p now where m: "m = (ty, p, now)" by (cases m) auto
  define c' where "c' = send_all c ms"
  define every where "every = messageQueue c @ map envelope ms"
  define k where "k = length (messageQueue c) + length ms - 100"
  have lall: "length every = length (messageQueue c) + length ms"
    by (simp add: every_def)
  have nd': "\<not> (socketOpen c' \<and> authenticated c')"
    using send_all_keeps_socket[OF nd, of ms] nd by (simp add: socketOpen_def c'_def)
  have q: "messageQueue c' = drop k every"
    unfolding c'_def every_def k_def by (rule snoc.IH)
  have goal: "messageQueue c @ map envelope (ms @ [m]) = every @ [envelope m]"
    by (simp add: every_def)
  have step: "send_all c (ms @ [m]) = send c' ty p now"
    by (simp add: m send_all_snoc c'_def)
  show ?case
  proof (cases "length (messageQueue c') \<ge> 100")
    case True
    then have big: "length every \<ge> 100" by (simp add: q)
    then have kl: "k < length every" and ks: "Suc k = length every + 1 - 100"
      by (simp_all add: k_def lall)
    have "messageQueue (send c' ty p now) = tl (messageQueue c' @ [envelope m])"
      using True nd' by (simp add: m send_queued)
    also have "\<dots> = tl (drop k every @ [envelope m])"
      by (simp only: q)
    also have "\<dots> = tl (drop k every) @ [envelope m]"
      using kl by simp
    also have "\<dots> = drop (Suc k) every @ [envelope m]"
      by (simp add: drop_Suc tl_drop)
    also have "\<dots> = drop (Suc k) (every @ [envelope m])"
      using kl by simp
    finally show ?thesis
      unfolding step goal ks using lall by simp
  next
    case False
    then have small: "length every < 100" by (simp add: q k_def lall)
    then have k0: "k = 0" by (simp add: k_def lall)
    have "messageQueue (send c' ty p now) = messageQueue c' @ [envelope m]"
      using False nd' by (simp add: m send_queued)
    also have "\<dots> = every @ [envelope m]"
      by (simp add: q k0)
    finally show ?thesis
      unfolding step goal using small lall by simp
  qed
qed

lemma drainQueue_open:
  "readyState w = OPEN \<Longrightarrow>
   drainQueue (Some w) q = Some (w\<lparr>sentFrames := sentFrames w @ q\<rparr>)"
  by (induction q arbitrary: w) (simp_all add: ws_send_def)

lemma handleRegistered_open:
  assumes "socketOpen c"
  shows "messageQueue (handleRegistered c) = []"
    and "authenticated (handleRegistered c)"
    and "socketOpen (handleRegistered c)"
    and "frames (handleRegistered c) = frames c @ messageQueue c"
  using assms
  by (auto simp: handleRegistered_def startHeartbeat_def stopHeartbeat_def socketOpen_def
      frames_def drainQueue_open Let_def split: option.splits)

lemma send_delivered:
  "socketOpen c \<Longrightarrow> authenticated c \<Longrightarrow>
   frames (send c ty p now) = frames c @ [envelope (ty, p, now)] \<and>
   messageQueue (send c ty p now) = messageQueue c"
  by (auto simp: send_def socketOpen_def frames_def ws_send_def envelope_def Let_def
      split: option.splits)

lemma scheduleReconnect_below:
  "reconnectAttempts c < maxReconnectAttempts c \<Longrightarrow>
   scheduleReconnect c =
     c\<lparr>reconnectAttempts := Suc (reconnectAttempts c),
        scheduledReconnects := scheduledReconnects c @ [min (1000 * 2 ^ reconnectAttempts c) 60000]\<rparr>"
  by (simp add: scheduleReconnect_def reconnectDelay_def Let_def)

lemma scheduleReconnect_capped:
  "maxReconnectAttempts c \<le> reconnectAttempts c \<Longrightarrow> scheduleReconnect c = c"
  by (simp add: scheduleReconnect_def)

lemma scheduleReconnect_max [simp]:
  "maxReconnectAttempts (scheduleReconnect c) = maxReconnectAttempts c"
  by (simp add: scheduleReconnect_def Let_def)

lemma scheduleReconnect_budget:
  "length (scheduledReconnects (scheduleReconnect c)) + (maxReconnectAttempts c - reconnectAttempts (scheduleReconnect c))
   = length (scheduledReconnects c) + (maxReconnectAttempts c - reconnectAttempts c)"
  by (auto simp: scheduleReconnect_def Let_def)

lemma scheduleReconnect_iter_budget:
  "length (scheduledReconnects ((scheduleReconnect ^^ n) c)) +
     (maxReconnectAttempts c - reconnectAttempts ((scheduleReconnect ^^ n) c))
   = length (scheduledReconnects c) + (maxReconnectAttempts c - reconnectAttempts c)"
proof (induction n)
  case 0
  then show ?case by simp
next
  case (Suc n)
  have m: "maxReconnectAttempts ((scheduleReconnect ^^ n) c) = maxReconnectAttempts c"
    by (induction n) simp_all
  show ?case using scheduleReconnect_budget[of "(scheduleReconnect ^^ n) c"] Suc by (simp add: m)
qed

lemma on_open_attempts: "reconnectAttempts (on_open config c now) = 0"
  by (simp add: on_open_def authenticate_def Let_def split: option.splits)

lemma handleRegistered_attempts: "reconnectAttempts (handleRegistered c) = reconnectAttempts c"
  by (simp add: handleRegistered_def startHeartbeat_def stopHeartbeat_def Let_def)

lemma handleError_auth:
  "code = Some ''auth_error'' \<or> code = Some ''invalid_api_key'' \<Longrightarrow>
   maxReconnectAttempts (handleError c code) = 0"
  by (auto simp: handleError_def disconnect_def stopHeartbeat_def Let_def split: option.splits)


lemma on_open_fields:
  "connected (on_open config c now)" 
  "authenticated (on_open config c now) = authenticated c"
  "reconnectAttempts (on_open config c now) = 0"
  "maxReconnectAttempts (on_open config c now) = maxReconnectAttempts c"
  "scheduledReconnects (on_open config c now) = scheduledReconnects c"
  by (cases "ws c"; simp add: on_open_def authenticate_def)+

lemma stopHeartbeat_fields:
  "connected (stopHeartbeat c) = connected c"
  "authenticated (stopHeartbeat c) = authenticated c"
  "reconnectAttempts (stopHeartbeat c) = reconnectAttempts c"
  "maxReconnectAttempts (stopHeartbeat c) = maxReconnectAttempts c"
  "scheduledReconnects (stopHeartbeat c) = scheduledReconnects c"
  "ws (stopHeartbeat c) = ws c"
  by (simp_all add: stopHeartbeat_def)

lemma on_close_fields:
  "\<not> connected (on_close c)" 
  "\<not> authenticated (on_close c)"
  "maxReconnectAttempts (on_close c) = maxReconnectAttempts c"
  "reconnectAttempts c < maxReconnectAttempts c \<Longrightarrow>
     scheduledReconnects (on_close c) =
       scheduledReconnects c @ [min (1000 * 2 ^ reconnectAttempts c) 60000]"
  by (simp_all add: on_close_def scheduleReconnect_def stopHeartbeat_fields reconnectDelay_def
      Let_def)

lemma connect_fields:
  "\<not> connected c \<Longrightarrow> connected (connect c True) = False"
  "\<not> connected c \<Longrightarrow> authenticated (connect c True) = authenticated c"
  "\<not> connected c \<Longrightarrow> maxReconnectAttempts (connect c True) = maxReconnectAttempts c"
  "\<not> connected c \<Longrightarrow> scheduledReconnects (connect c True) = scheduledReconnects c"
  by (simp_all add: connect_def)

lemma reconnect_cycle:
  fixes config now c
  defines "c' \<equiv> foldl (transport_step config) c [WsOpen now, WsClose, ReconnectTimer True]"
  assumes "\<not> connected c" "maxReconnectAttempts c > 0"
  shows "\<not> connected c' \<and> \<not> authenticated c' \<and> maxReconnectAttempts c' = maxReconnectAttempts c \<and>
   scheduledReconnects c' = scheduledReconnects c @ [1000]"
  using assms(2,3) unfolding c'_def
  by (simp add: connect_fields on_close_fields on_open_fields)

lemma reconnect_cycles:
  "\<not> connected c \<Longrightarrow> \<not> authenticated c \<Longrightarrow> maxReconnectAttempts c > 0 \<Longrightarrow>
   (let c' = foldl (transport_step config) c (concat (replicate n [WsOpen now, WsClose, ReconnectTimer True]))
    in \<not> connected c' \<and> \<not> authenticated c' \<and> maxReconnectAttempts c' = maxReconnectAttempts c \<and>
   scheduledReconnects c' = scheduledReconnects c @ replicate n 1000)"
proof (induction n arbitrary: c)
  case 0
  then show ?case by simp
next
  case (Suc n)
  define c1 where "c1 = foldl (transport_step config) c [WsOpen now, WsClose, ReconnectTimer True]"
  have s: "\<not> connected c1 \<and> \<not> authenticated c1 \<and> maxReconnectAttempts c1 = maxReconnectAttempts c \<and>
   scheduledReconnects c1 = scheduledReconnects c @ [1000]"
    using reconnect_cycle[of c config now] Suc.prems by (simp add: c1_def)
  have "foldl (transport_step config) c (concat (replicate (Suc n) [WsOpen now, WsClose, ReconnectTimer True]))
      = foldl (transport_step config) c1 (concat (replicate n [WsOpen now, WsClose, ReconnectTimer True]))"
    by (simp add: c1_def)
  then show ?case using Suc.IH[of c1] s Suc.prems
    by (simp add: Let_def replicate_append_same)
qed

text \<open>
  C5. The outbound queue holds at most 100 messages after every operation of a run that
  starts from a new connection, and a single \<^const>\<open>send\<close> keeps the bound. While the
  transport cannot deliver (no open socket, or not registered), a run of sends leaves the
  last 100 envelopes in the order they were sent: the head is what overflow evicts. In
  particular, after 101 sends into an empty queue the first envelope is gone and the
  other 100 remain in order.
\<close>

theorem queue_cap_head_eviction:
  "length (messageQueue (transport_run config new_BackendConnection evs)) \<le> 100
   \<and> (length (messageQueue c) \<le> 100 \<longrightarrow> length (messageQueue (send c ty p now)) \<le> 100)
   \<and> (\<not> (socketOpen c \<and> authenticated c) \<longrightarrow> length (messageQueue c) \<le> 100 \<longrightarrow>
        messageQueue (send_all c ms) =
          drop (length (messageQueue c) + length ms - 100) (messageQueue c @ map envelope ms))
   \<and> (\<not> (socketOpen c \<and> authenticated c) \<longrightarrow> messageQueue c = [] \<longrightarrow> length ms = 101 \<longrightarrow>
        messageQueue (send_all c ms) = map envelope (tl ms))"
proof -
  have a: "length (messageQueue (transport_run config new_BackendConnection evs)) \<le> 100"
    by (rule transport_run_queue_bound) (simp add: new_BackendConnection_def)
  have d: "messageQueue (send_all c ms) = map envelope (tl ms)"
    if "\<not> (socketOpen c \<and> authenticated c)" "messageQueue c = []" "length ms = 101"
    using send_all_queue[of c ms] that by (simp add: drop_Suc drop_map tl_drop)
  show ?thesis using a d send_all_queue[of c ms] send_queue_bound[of c ty p now] by blast
qed

theorem queue_cap_head_eviction_witness:
  "\<not> (socketOpen new_BackendConnection \<and> authenticated new_BackendConnection)
   \<and> messageQueue new_BackendConnection = []
   \<and> length (example_sends 101) = 101
   \<and> messageQueue (send_all new_BackendConnection (example_sends 101))
       = map envelope (tl (example_sends 101))
   \<and> length (messageQueue (send_all new_BackendConnection (example_sends 101))) = 100"
proof -
  have l: "length (example_sends 101) = 101"
    by (simp add: example_sends_def)
  have e: "messageQueue new_BackendConnection = []" "\<not> socketOpen new_BackendConnection"
    by (simp_all add: new_BackendConnection_def socketOpen_def)
  show ?thesis
    using queue_cap_head_eviction
            [of example_config "[]" new_BackendConnection "''heartbeat''"
                "HeartbeatPayload 0 []" 0 "example_sends 101"] l e
    by (simp add: drop_Suc drop_map tl_drop)
qed

subsection \<open>The drain on registration\<close>

text \<open>
  C6. When the \<^verbatim>\<open>registered\<close> reply arrives on an open socket, \<^const>\<open>handleRegistered\<close>
  hands every queued message to the socket in the order it was queued and leaves the
  queue empty; a send admitted afterwards is delivered after all of them, straight to
  the socket.
\<close>

theorem drain_on_register_fifo:
  assumes "socketOpen c"
  shows "messageQueue (handleRegistered c) = []
     \<and> authenticated (handleRegistered c)
     \<and> frames (handleRegistered c) = frames c @ messageQueue c
     \<and> frames (send (handleRegistered c) ty p now)
         = frames c @ messageQueue c @ [envelope (ty, p, now)]
     \<and> messageQueue (send (handleRegistered c) ty p now) = []"
  using assms handleRegistered_open[OF assms]
        send_delivered[of "handleRegistered c" ty p now]
  by simp

theorem drain_on_register_fifo_witness:
  "socketOpen example_waiting
   \<and> messageQueue example_waiting = map envelope (example_sends 2)
   \<and> messageQueue (handleRegistered example_waiting) = []
   \<and> frames (handleRegistered example_waiting)
       = frames example_waiting @ map envelope (example_sends 2)
   \<and> frames (send (handleRegistered example_waiting) ''heartbeat'' (HeartbeatPayload 9 []) 9)
       = frames example_waiting @ map envelope (example_sends 2)
           @ [envelope (''heartbeat'', HeartbeatPayload 9 [], 9)]"
proof -
  have ws: "ws (on_open example_config (connect new_BackendConnection True) 5) \<noteq> None"
    by (simp add: on_open_def authenticate_def connect_def new_BackendConnection_def)
  have nd: "\<not> (socketOpen (on_open example_config (connect new_BackendConnection True) 5)
             \<and> authenticated (on_open example_config (connect new_BackendConnection True) 5))"
    by (simp add: on_open_fields connect_def new_BackendConnection_def)
  have q0: "messageQueue (on_open example_config (connect new_BackendConnection True) 5) = []"
    by (simp add: on_open_def authenticate_def connect_def new_BackendConnection_def)
  have op: "socketOpen example_waiting"
    using send_all_keeps_socket[OF nd, of "example_sends 2"]
    by (simp add: example_waiting_def socketOpen_def on_open_def authenticate_def connect_def
        new_BackendConnection_def ws_send_def)
  have q: "messageQueue example_waiting = map envelope (example_sends 2)"
    using send_all_queue[OF nd, of "example_sends 2"] q0
    by (simp add: example_waiting_def example_sends_def)
  show ?thesis
    using drain_on_register_fifo[OF op, of "''heartbeat''" "HeartbeatPayload 9 []" 9] op q
    by simp
qed

subsection \<open>The reconnect schedule\<close>

text \<open>
  C7, as the code has it. A reconnect is scheduled only while the attempt counter is below
  the cap; the counter then goes up by one, to \<open>k\<close>, and the delay is
  \<open>min (1000 * 2 ^ (k - 1)) 60000\<close> ms. At the cap nothing is scheduled, so \<open>n\<close> calls in
  a row schedule at most cap minus counter reconnects. The cap is 10 on a new connection
  and 0 after an \<^verbatim>\<open>auth_error\<close> or \<^verbatim>\<open>invalid_api_key\<close> reply. The counter goes back
  to 0 when the socket opens; the \<^verbatim>\<open>registered\<close> reply leaves it as it is.
\<close>

theorem reconnect_backoff_schedule:
  "(reconnectAttempts c < maxReconnectAttempts c \<longrightarrow>
      reconnectAttempts (scheduleReconnect c) = reconnectAttempts c + 1 \<and>
      scheduledReconnects (scheduleReconnect c) =
        scheduledReconnects c @ [min (1000 * 2 ^ (reconnectAttempts (scheduleReconnect c) - 1)) 60000])
   \<and> (maxReconnectAttempts c \<le> reconnectAttempts c \<longrightarrow> scheduleReconnect c = c)
   \<and> length (scheduledReconnects ((scheduleReconnect ^^ n) c))
        \<le> length (scheduledReconnects c) + (maxReconnectAttempts c - reconnectAttempts c)
   \<and> maxReconnectAttempts new_BackendConnection = 10
   \<and> reconnectAttempts new_BackendConnection = 0
   \<and> (code = Some ''auth_error'' \<or> code = Some ''invalid_api_key'' \<longrightarrow>
        maxReconnectAttempts (handleError c code) = 0 \<and>
        scheduleReconnect (handleError c code) = handleError c code)
   \<and> reconnectAttempts (on_open config c now) = 0
   \<and> reconnectAttempts (handleRegistered c) = reconnectAttempts c"
proof -
  have "length (scheduledReconnects ((scheduleReconnect ^^ n) c))
        \<le> length (scheduledReconnects c) + (maxReconnectAttempts c - reconnectAttempts c)"
    using scheduleReconnect_iter_budget[of n c] by linarith
  moreover have "code = Some ''auth_error'' \<or> code = Some ''invalid_api_key'' \<Longrightarrow>
        scheduleReconnect (handleError c code) = handleError c code"
    by (rule scheduleReconnect_capped) (simp add: handleError_auth)
  ultimately show ?thesis
    by (simp add: scheduleReconnect_below scheduleReconnect_capped on_open_attempts
        handleRegistered_attempts handleError_auth new_BackendConnection_def)
qed

theorem reconnect_backoff_schedule_witness:
  "reconnectAttempts new_BackendConnection < maxReconnectAttempts new_BackendConnection
   \<and> scheduledReconnects (scheduleReconnect new_BackendConnection) = [1000]
   \<and> maxReconnectAttempts (new_BackendConnection\<lparr>reconnectAttempts := 10\<rparr>)
       \<le> reconnectAttempts (new_BackendConnection\<lparr>reconnectAttempts := 10\<rparr>)
   \<and> scheduleReconnect (new_BackendConnection\<lparr>reconnectAttempts := 10\<rparr>)
       = new_BackendConnection\<lparr>reconnectAttempts := 10\<rparr>
   \<and> scheduleReconnect (handleError new_BackendConnection (Some ''auth_error''))
       = handleError new_BackendConnection (Some ''auth_error'')"
  using reconnect_backoff_schedule
          [of new_BackendConnection 0 "Some ''auth_error''" example_config 0]
        reconnect_backoff_schedule
          [of "new_BackendConnection\<lparr>reconnectAttempts := 10\<rparr>" 0 None example_config 0]
  by (simp add: new_BackendConnection_def)

text \<open>
  C7 as the claim states it fails: a collector that accepts the socket and drops it
  before it replies \<^verbatim>\<open>registered\<close> makes the agent schedule an eleventh reconnect, each
  one after 1000 ms, although the transport was never registered in between.
\<close>

theorem reconnect_cap_counterexample:
  "scheduledReconnects
     (transport_run example_config new_BackendConnection
        (Connect True # concat (replicate 11 [WsOpen 0, WsClose, ReconnectTimer True])))
     = replicate 11 1000
   \<and> \<not> authenticated
     (transport_run example_config new_BackendConnection
        (Connect True # concat (replicate 11 [WsOpen 0, WsClose, ReconnectTimer True])))"
  using reconnect_cycles[of "connect new_BackendConnection True" example_config 11 0]
  by (simp add: transport_run_def Let_def connect_def new_BackendConnection_def)

section \<open>Variable Harvester: the two capture limits\<close>

text \<open>
  C2. \<^const>\<open>capturePropertyValue\<close> cuts a string at 500 characters, whatever
  \<^const>\<open>maxStringLength\<close> is. With the default limit of 1000 a string of 600 characters is
  captured as 500 characters and flagged as truncated, although it is within the limit;
  with a limit of 100 a string of 300 characters is captured whole and not flagged.
\<close>

theorem string_capture_ignores_maxStringLength:
  "maxStringLength example_config = 1000
   \<and> map_option (\<lambda>cv. (length (cv_value cv), isTruncated cv))
       (capturePropertyValue example_config True []
          \<lparr> pd_name = ''s'',
            pd_value = Some (primitive ''string'' (replicate 600 (CHR ''a''))) \<rparr> 0)
     = Some (500, True)
   \<and> map_option (\<lambda>cv. (length (cv_value cv), isTruncated cv))
       (capturePropertyValue (example_config\<lparr>maxStringLength := 100\<rparr>) True []
          \<lparr> pd_name = ''s'',
            pd_value = Some (primitive ''string'' (replicate 300 (CHR ''a''))) \<rparr> 0)
     = Some (300, False)"
  by (simp add: example_config_def new_AgentConfig_def example_options_def example_env_def
      primitive_def)

text \<open>
  C3. \<^const>\<open>capturePropertyValue\<close> expands an array when its printed length is at most
  100, whatever \<^const>\<open>maxCollectionSize\<close> is: with a limit of 2, an array of three
  elements is captured with its elements.
\<close>

theorem array_capture_ignores_maxCollectionSize:
  "maxCollectionSize (example_config\<lparr>maxCollectionSize := 2\<rparr>) = 2
   \<and> map_option (\<lambda>cv. (arrayLength cv, map_option (map cv_value) (arrayElements cv)))
       (capturePropertyValue (example_config\<lparr>maxCollectionSize := 2\<rparr>) True
          example_array_heap example_array 0)
     = Some (Some 3, Some [''1'', ''2'', ''3''])"
  by code_simp

section \<open>Debugger Session: one resume for each exception pause\<close>

lemma cleanupCache_posted [simp]:
  "posted (cleanupCache m now) = posted m" "session (cleanupCache m now) = session m"
  by (simp_all add: cleanupCache_def Let_def)

lemma captureAndCacheLocals_posted [simp]:
  "posted (captureAndCacheLocals config m cfs k env) = posted m"
  "session (captureAndCacheLocals config m cfs k env) = session m"
  by (simp_all add: captureAndCacheLocals_def Let_def)

lemma addSentFingerprint_posted [simp]:
  "posted (addSentFingerprint m fp) = posted m" "session (addSentFingerprint m fp) = session m"
  by (simp_all add: addSentFingerprint_def Let_def)




section \<open>Debugger Session: the locals cache and the deduplication set\<close>

lemma split_not_Nil: "split sep s \<noteq> []"
  by (induction s) (auto split: list.splits)

lemma join_Cons_nonempty: "x \<noteq> [] \<Longrightarrow> join sep (x # xs) \<noteq> []"
  by (cases xs) auto

lemma join_two_nonempty: "sep \<noteq> [] \<Longrightarrow> join sep (x # y # ys) \<noteq> []"
  by simp

lemma stack_key_nonempty: "s \<noteq> [] \<Longrightarrow> join ''|'' (take 4 (split NL s)) \<noteq> []"
proof (cases s)
  case Nil
  then show "s \<noteq> [] \<Longrightarrow> ?thesis" by simp
next
  case (Cons c cs)
  obtain p ps where sp: "split NL cs = p # ps"
    using split_not_Nil[of NL cs] by (cases "split NL cs") auto
  show ?thesis
  proof (cases "c = NL")
    case True
    then show ?thesis using Cons sp by (simp add: take_Suc_conv_app_nth numeral_eq_Suc)
  next
    case False
    then show ?thesis using Cons sp by (simp add: numeral_eq_Suc join_Cons_nonempty)
  qed
qed

lemma truthy_iff: "truthy x \<longleftrightarrow> (\<exists>s. x = Some s \<and> s \<noteq> [])"
  by (cases x) auto

lemma extractStackKey_nonempty: "extractStackKey d now \<noteq> []"
  by (cases d) (auto simp: extractStackKey_def stack_key_nonempty truthy_iff)

lemma update_length:
  "length (AList.update k v al) = (if k \<in> fst ` set al then length al else Suc (length al))"
  by (induction al) auto

lemma fingerprint_nonempty: "computeFingerprintFromCallFrames cfs d \<noteq> []"
  by (simp add: computeFingerprintFromCallFrames_def Let_def)

lemma delete_head:
  "distinct (map fst (p # rest)) \<Longrightarrow> AList.delete (fst p) (p # rest) = rest"
  by (cases p) (simp add: rev_image_eqI)

lemma cleanupCache_ok:
  assumes "distinct (map fst (localsCache m))" "[] \<notin> fst ` set (localsCache m)"
    "length (localsCache m) \<le> 101"
  shows "cache_ok (cleanupCache m now)"
    and "length (localsCache (cleanupCache m now)) \<le> length (localsCache m)"
proof -
  define kept where
    "kept = filter (\<lambda>entry. \<not> (now - cl_timestamp (snd entry) > cacheMaxAge)) (localsCache m)"
  have d: "distinct (map fst kept)" using assms(1) by (simp add: kept_def distinct_map_filter)
  have ne: "[] \<notin> fst ` set kept" using assms(2) by (auto simp: kept_def)
  have l: "length kept \<le> length (localsCache m)" by (simp add: kept_def)
  have c: "localsCache (cleanupCache m now) =
             (if length kept > 100 then
                 (case kept of
                    [] \<Rightarrow> kept
                  | oldest # rest \<Rightarrow> if fst oldest \<noteq> [] then AList.delete (fst oldest) kept else kept)
               else kept)"
    unfolding kept_def cleanupCache_def Let_def by simp
  show "cache_ok (cleanupCache m now)"
  proof (cases "length kept > 100")
    case True
    then obtain oldest rest where k: "kept = oldest # rest" by (cases kept) auto
    have o: "fst oldest \<noteq> []" using ne k by auto
    have "localsCache (cleanupCache m now) = rest"
      using True k o d delete_head[of oldest rest] by (simp add: c)
    then show ?thesis using d ne k l assms(3) by (auto simp: cache_ok_def)
  next
    case False
    then show ?thesis using d ne by (simp add: c cache_ok_def)
  qed
  show "length (localsCache (cleanupCache m now)) \<le> length (localsCache m)"
  proof (cases "length kept > 100")
    case True
    then obtain oldest rest where k: "kept = oldest # rest" by (cases kept) auto
    have o: "fst oldest \<noteq> []" using ne k by auto
    have "localsCache (cleanupCache m now) = rest"
      using True k o d delete_head[of oldest rest] by (simp add: c)
    then show ?thesis using k l by simp
  next
    case False
    then show ?thesis using l by (simp add: c)
  qed
qed

lemma captureAndCacheLocals_ok:
  assumes "cache_ok m" "key \<noteq> []"
  shows "cache_ok (captureAndCacheLocals config m cfs key env)"
    and "length (localsCache (captureAndCacheLocals config m cfs key env)) \<le> length (localsCache m) + 1"
proof -
  show "cache_ok (captureAndCacheLocals config m cfs key env)"
  proof (cases "harvestThrows env")
    case True
    then show ?thesis using assms by (simp add: captureAndCacheLocals_def)
  next
    case False
    define e where "e = \<lparr> locals = local_variables (captureCallFramesAsync config m (pe_heap env) cfs),
                          cl_stackTrace = stack_trace (captureCallFramesAsync config m (pe_heap env) cfs),
                          cl_timestamp = t_cached env \<rparr>"
    define m1 where "m1 = m\<lparr>localsCache := AList.update key e (localsCache m),
                    lastExceptionData :=
                      Some \<lparr> ced_stackTrace = stack_trace (captureCallFramesAsync config m (pe_heap env) cfs),
                             ced_localVariables = local_variables (captureCallFramesAsync config m (pe_heap env) cfs),
                             ced_capturedAt = pe_iso env \<rparr>\<rparr>"
    have eq: "captureAndCacheLocals config m cfs key env = cleanupCache m1 (t_cached env)"
      using False by (simp add: captureAndCacheLocals_def Let_def m1_def e_def)
    have "distinct (map fst (localsCache m1))" "[] \<notin> fst ` set (localsCache m1)"
      "length (localsCache m1) \<le> 101"
      using assms by (auto simp: m1_def cache_ok_def distinct_update dom_update update_length)
    then show ?thesis unfolding eq by (rule cleanupCache_ok)
  qed
  show "length (localsCache (captureAndCacheLocals config m cfs key env)) \<le> length (localsCache m) + 1"
  proof (cases "harvestThrows env")
    case True
    then show ?thesis by (simp add: captureAndCacheLocals_def)
  next
    case False
    define e where "e = \<lparr> locals = local_variables (captureCallFramesAsync config m (pe_heap env) cfs),
                          cl_stackTrace = stack_trace (captureCallFramesAsync config m (pe_heap env) cfs),
                          cl_timestamp = t_cached env \<rparr>"
    define m1 where "m1 = m\<lparr>localsCache := AList.update key e (localsCache m),
                    lastExceptionData :=
                      Some \<lparr> ced_stackTrace = stack_trace (captureCallFramesAsync config m (pe_heap env) cfs),
                             ced_localVariables = local_variables (captureCallFramesAsync config m (pe_heap env) cfs),
                             ced_capturedAt = pe_iso env \<rparr>\<rparr>"
    have eq: "captureAndCacheLocals config m cfs key env = cleanupCache m1 (t_cached env)"
      using False by (simp add: captureAndCacheLocals_def Let_def m1_def e_def)
    have h: "distinct (map fst (localsCache m1))" "[] \<notin> fst ` set (localsCache m1)"
      "length (localsCache m1) \<le> 101"
      using assms by (auto simp: m1_def cache_ok_def distinct_update dom_update update_length)
    have "length (localsCache m1) \<le> length (localsCache m) + 1"
      by (simp add: m1_def update_length)
    then show ?thesis unfolding eq using cleanupCache_ok(2)[OF h, of "t_cached env"] by linarith
  qed
qed

lemma addSentFingerprint_ok:
  assumes "dedup_ok m" "fp \<noteq> []"
  shows "dedup_ok (addSentFingerprint m fp)"
    and "length (sentExceptionFingerprints (addSentFingerprint m fp)) \<le> length (sentExceptionFingerprints m) + 1"
proof -
  define added where "added = (if fp \<in> set (sentExceptionFingerprints m) then sentExceptionFingerprints m
                   else sentExceptionFingerprints m @ [fp])"
  have d: "distinct added" "[] \<notin> set added" "length added \<le> 101"
    "length added \<le> length (sentExceptionFingerprints m) + 1"
    using assms by (auto simp: added_def dedup_ok_def)
  have c: "sentExceptionFingerprints (addSentFingerprint m fp) =
              (if length added > 100 then
                 (case added of
                    [] \<Rightarrow> added
                  | first # rest \<Rightarrow> if first \<noteq> [] then removeAll first added else added)
               else added)"
    unfolding added_def addSentFingerprint_def Let_def by simp
  have r: "sentExceptionFingerprints (addSentFingerprint m fp) = (if length added > 100 then tl added else added)"
  proof (cases "length added > 100")
    case True
    then obtain first rest where k: "added = first # rest" by (cases added) auto
    then have "first \<noteq> []" "first \<notin> set rest" using d by auto
    then show ?thesis using True k by (simp add: c)
  next
    case False
    then show ?thesis by (simp add: c)
  qed
  show "dedup_ok (addSentFingerprint m fp)"
    using d by (cases added) (auto simp: r dedup_ok_def)
  show "length (sentExceptionFingerprints (addSentFingerprint m fp)) \<le> length (sentExceptionFingerprints m) + 1"
    using d(4) by (auto simp: r)
qed


lemma post_caches [simp]:
  "localsCache (post m cmd) = localsCache m"
  "sentExceptionFingerprints (post m cmd) = sentExceptionFingerprints m"
  "localsCache (post_if_session m cmd) = localsCache m"
  "sentExceptionFingerprints (post_if_session m cmd) = sentExceptionFingerprints m"
  by (simp_all add: post_def post_if_session_def)

lemma captureAndCacheLocals_sent [simp]:
  "sentExceptionFingerprints (captureAndCacheLocals config m cfs key env) = sentExceptionFingerprints m"
  by (simp add: captureAndCacheLocals_def cleanupCache_def Let_def)

lemma addSentFingerprint_cache [simp]:
  "localsCache (addSentFingerprint m fp) = localsCache m"
  by (simp add: addSentFingerprint_def Let_def)

lemma cache_ok_cong:
  "localsCache m' = localsCache m \<Longrightarrow> cache_ok m' = cache_ok m"
  by (simp add: cache_ok_def)

lemma dedup_ok_cong:
  "sentExceptionFingerprints m' = sentExceptionFingerprints m \<Longrightarrow> dedup_ok m' = dedup_ok m"
  by (simp add: dedup_ok_def)

lemma handlePaused_ok:
  fixes m config conn pause
  defines "m' \<equiv> fst (handlePaused config (m, conn) pause)"
  assumes "cache_ok m" "dedup_ok m"
  shows "cache_ok m'" and "dedup_ok m'"
    and "length (localsCache m') \<le> length (localsCache m) + 1"
    and "length (sentExceptionFingerprints m') \<le> length (sentExceptionFingerprints m) + 1"
proof -
  obtain event env where pause: "pause = (event, env)" by (cases pause) auto
  define now where "now = t_paused env"
  define m2 where "m2 = (if now > rateLimitReset m
                   then m\<lparr>rateLimitCount := 0, rateLimitReset := now + 1000\<rparr> else m)
                     \<lparr>rateLimitCount := rateLimitCount (if now > rateLimitReset m
                   then m\<lparr>rateLimitCount := 0, rateLimitReset := now + 1000\<rparr> else m) + 1\<rparr>"
  define key where "key = extractStackKey (pause_data event) now"
  define m3 where "m3 = m2\<lparr>pendingCaptures := AList.update key now (pendingCaptures m2)\<rparr>"
  define m4 where "m4 = captureAndCacheLocals config m3 (callFrames event) key env"
  define m5 where "m5 = m4\<lparr>pendingCaptures := AList.delete key (pendingCaptures m4)\<rparr>"
  define fp where "fp = computeFingerprintFromCallFrames (callFrames event) (pause_data event)"
  define m6 where "m6 = (if reason event = ''exception'' then addSentFingerprint m5 fp else m5)"
  have c3: "localsCache m3 = localsCache m" "sentExceptionFingerprints m3 = sentExceptionFingerprints m"
    by (simp_all add: m3_def m2_def)
  have ok3: "cache_ok m3" "dedup_ok m3"
    using assms(2,3) c3 by (simp_all add: cache_ok_def dedup_ok_def)
  have k: "key \<noteq> []" by (simp add: key_def extractStackKey_nonempty)
  have ok4: "cache_ok m4" "length (localsCache m4) \<le> length (localsCache m) + 1"
    using captureAndCacheLocals_ok[OF ok3(1) k, of config "callFrames event" env] c3
    by (simp_all add: m4_def)
  have s5: "sentExceptionFingerprints m5 = sentExceptionFingerprints m" "localsCache m5 = localsCache m4"
    by (simp_all add: m5_def m4_def c3)
  have ok5: "dedup_ok m5" using assms(3) s5 by (simp add: dedup_ok_def)
  have f: "fp \<noteq> []" by (simp add: fp_def fingerprint_nonempty)
  have ok6: "dedup_ok m6" "length (sentExceptionFingerprints m6) \<le> length (sentExceptionFingerprints m) + 1"
    "localsCache m6 = localsCache m4"
    using addSentFingerprint_ok[OF ok5 f] s5 ok5 by (auto simp: m6_def)
  have cases: "m' = m \<or> (localsCache m' = localsCache m \<and> sentExceptionFingerprints m' = sentExceptionFingerprints m)
      \<or> (localsCache m' = localsCache m6 \<and> sentExceptionFingerprints m' = sentExceptionFingerprints m6)"
    unfolding m'_def pause
    by (auto simp: handlePaused_def Let_def m6_def m5_def m4_def m3_def m2_def key_def fp_def now_def
        split: option.splits)
  show "cache_ok m'" using cases assms(2) ok4 ok6 by (auto simp: cache_ok_def)
  show "dedup_ok m'" using cases assms(3) ok6 by (auto simp: dedup_ok_def)
  show "length (localsCache m') \<le> length (localsCache m) + 1" using cases ok4 ok6 by auto
  show "length (sentExceptionFingerprints m') \<le> length (sentExceptionFingerprints m) + 1"
    using cases ok6 by auto
qed

lemma handlePaused_all_snoc:
  "handlePaused_all config state (pauses @ [pause])
     = handlePaused config (handlePaused_all config state pauses) pause"
  by (simp add: handlePaused_all_def)

lemma handlePaused_all_ok:
  fixes m config conn pauses
  defines "m' \<equiv> fst (handlePaused_all config (m, conn) pauses)"
  assumes "cache_ok m" "dedup_ok m"
  shows "cache_ok m' \<and> dedup_ok m'
     \<and> length (localsCache m') \<le> length (localsCache m) + length pauses
     \<and> length (sentExceptionFingerprints m') \<le> length (sentExceptionFingerprints m) + length pauses"
  unfolding m'_def
proof (induction pauses rule: rev_induct)
  case Nil
  then show ?case using assms(2,3) by (simp add: handlePaused_all_def)
next
  case (snoc pause pauses)
  obtain m1 conn1 where st: "handlePaused_all config (m, conn) pauses = (m1, conn1)"
    by (cases "handlePaused_all config (m, conn) pauses") auto
  have ih: "cache_ok m1" "dedup_ok m1"
    "length (localsCache m1) \<le> length (localsCache m) + length pauses"
    "length (sentExceptionFingerprints m1) \<le> length (sentExceptionFingerprints m) + length pauses"
    using snoc.IH by (simp_all add: st)
  show ?case
    using handlePaused_ok[OF ih(1,2), of config conn1 pause] ih(3,4)
    by (simp add: handlePaused_all_snoc st)
qed

lemma update_fresh: "k \<notin> fst ` set al \<Longrightarrow> AList.update k v al = al @ [(k, v)]"
  by (induction al) auto

lemma cache_eviction_fifo:
  assumes "cache_ok m" "length (localsCache m) = 100" "key \<notin> fst ` set (localsCache m)"
    "key \<noteq> []" "\<not> harvestThrows env"
    "\<forall>entry \<in> set (localsCache m). \<not> (t_cached env - cl_timestamp (snd entry) > cacheMaxAge)"
  shows "map fst (localsCache (captureAndCacheLocals config m cfs key env))
           = tl (map fst (localsCache m)) @ [key]"
proof -
  define e where "e = \<lparr> locals = local_variables (captureCallFramesAsync config m (pe_heap env) cfs),
                          cl_stackTrace = stack_trace (captureCallFramesAsync config m (pe_heap env) cfs),
                          cl_timestamp = t_cached env \<rparr>"
  obtain oldest rest where c: "localsCache m = oldest # rest"
    using assms(2) by (cases "localsCache m") auto
  have o: "fst oldest \<noteq> []" "fst oldest \<noteq> key" "fst oldest \<notin> fst ` set rest"
    using assms(1,3) c by (auto simp: cache_ok_def)
  define m1 where "m1 = m\<lparr>localsCache := AList.update key e (localsCache m),
                    lastExceptionData :=
                      Some \<lparr> ced_stackTrace = stack_trace (captureCallFramesAsync config m (pe_heap env) cfs),
                             ced_localVariables = local_variables (captureCallFramesAsync config m (pe_heap env) cfs),
                             ced_capturedAt = pe_iso env \<rparr>\<rparr>"
  define full where "full = oldest # rest @ [(key, e)]"
  have eq: "captureAndCacheLocals config m cfs key env = cleanupCache m1 (t_cached env)"
    using assms(5) by (simp add: captureAndCacheLocals_def Let_def m1_def e_def)
  have "localsCache m1 = localsCache m @ [(key, e)]"
    by (simp add: m1_def update_fresh[OF assms(3)])
  then have c1: "localsCache m1 = full"
    by (simp add: c full_def)
  have fresh: "\<forall>entry \<in> set full. \<not> (t_cached env - cl_timestamp (snd entry) > cacheMaxAge)"
    using assms(6) c by (simp add: full_def e_def cacheMaxAge_def)
  have kept: "filter (\<lambda>entry. \<not> (t_cached env - cl_timestamp (snd entry) > cacheMaxAge)) full = full"
    using fresh by (simp add: filter_id_conv)
  have len: "length full > 100"
    using assms(2) c by (simp add: full_def)
  have dist: "distinct (map fst (oldest # (rest @ [(key, e)])))"
    using assms(1,3) c by (auto simp: cache_ok_def)
  have "localsCache (cleanupCache m1 (t_cached env)) = AList.delete (fst oldest) full"
    unfolding cleanupCache_def Let_def c1 kept using len o(1) by (simp add: full_def)
  also have "\<dots> = rest @ [(key, e)]"
    unfolding full_def using delete_head[OF dist] by simp
  finally show ?thesis by (simp add: eq c)
qed

lemma dedup_eviction_fifo:
  assumes "dedup_ok m" "length (sentExceptionFingerprints m) = 100"
    "fp \<notin> set (sentExceptionFingerprints m)" "fp \<noteq> []"
  shows "sentExceptionFingerprints (addSentFingerprint m fp) = tl (sentExceptionFingerprints m) @ [fp]"
proof -
  obtain first rest where c: "sentExceptionFingerprints m = first # rest"
    using assms(2) by (cases "sentExceptionFingerprints m") auto
  have o: "first \<noteq> []" "first \<noteq> fp" "first \<notin> set rest"
    using assms(1,3) c by (auto simp: dedup_ok_def)
  show ?thesis
    using assms(2,3) o unfolding addSentFingerprint_def Let_def
    by (simp add: c)
qed


subsection \<open>What one pause does to the cache and to the set\<close>

lemma captureCallFramesAsync_cong:
  "session m' = session m \<Longrightarrow> scriptUrls m' = scriptUrls m \<Longrightarrow>
   captureCallFramesAsync config m' heap cfs = captureCallFramesAsync config m heap cfs"
  by (simp add: captureCallFramesAsync_def inspectorFrame_def Let_def cong: map_cong)

lemma map_of_filter_keep:
  "distinct (map fst al) \<Longrightarrow> (k, v) \<in> set al \<Longrightarrow> P (k, v) \<Longrightarrow> map_of (filter P al) k = Some v"
  by (simp add: distinct_map_filter)

lemma cleanupCache_keeps:
  assumes d: "distinct (map fst (localsCache m))" and len: "length (localsCache m) \<le> 101"
    and mem: "(key, e) \<in> set (localsCache m)"
    and fresh: "\<not> (now - cl_timestamp e > cacheMaxAge)"
    and nothead: "length (localsCache m) \<le> 100 \<or> fst (hd (localsCache m)) \<noteq> key"
  shows "map_of (localsCache (cleanupCache m now)) key = Some e"
proof -
  define kept where
    "kept = filter (\<lambda>entry. \<not> (now - cl_timestamp (snd entry) > cacheMaxAge)) (localsCache m)"
  have dk: "distinct (map fst kept)" using d by (simp add: kept_def distinct_map_filter)
  have mk: "map_of kept key = Some e"
    unfolding kept_def using d mem fresh by (intro map_of_filter_keep) simp_all
  have c: "localsCache (cleanupCache m now) =
             (if length kept > 100 then
                 (case kept of
                    [] \<Rightarrow> kept
                  | oldest # rest \<Rightarrow> if fst oldest \<noteq> [] then AList.delete (fst oldest) kept else kept)
               else kept)"
    unfolding kept_def cleanupCache_def Let_def by simp
  show ?thesis
  proof (cases "length kept > 100")
    case False
    then show ?thesis using mk by (simp add: c)
  next
    case True
    have "length kept \<le> length (localsCache m)" by (simp add: kept_def)
    with True len have full: "length (localsCache m) = 101" "length kept = length (localsCache m)"
      by auto
    then have keq: "kept = localsCache m"
      unfolding kept_def by (metis filter_id_conv length_filter_less linorder_not_less order_refl filter_True)
    obtain oldest rest where k: "kept = oldest # rest" using True by (cases kept) auto
    have "hd (localsCache m) = oldest" using keq k by (metis list.sel(1))
    then have "fst oldest \<noteq> key" using nothead full by auto
    then show ?thesis using True k mk by (auto simp: c)
  qed
qed


lemma update_member: "(k, v) \<in> set (AList.update k v al)"
  by (induction al) auto

lemma captureAndCacheLocals_lookup:
  assumes "cache_ok m" "\<not> harvestThrows env"
  shows "map_of (localsCache (captureAndCacheLocals config m cfs key env)) key
           = Some \<lparr> locals = local_variables (captureCallFramesAsync config m (pe_heap env) cfs),
                    cl_stackTrace = stack_trace (captureCallFramesAsync config m (pe_heap env) cfs),
                    cl_timestamp = t_cached env \<rparr>"
proof -
  define e where "e = \<lparr> locals = local_variables (captureCallFramesAsync config m (pe_heap env) cfs),
                          cl_stackTrace = stack_trace (captureCallFramesAsync config m (pe_heap env) cfs),
                          cl_timestamp = t_cached env \<rparr>"
  define m1 where "m1 = m\<lparr>localsCache := AList.update key e (localsCache m),
                    lastExceptionData :=
                      Some \<lparr> ced_stackTrace = stack_trace (captureCallFramesAsync config m (pe_heap env) cfs),
                             ced_localVariables = local_variables (captureCallFramesAsync config m (pe_heap env) cfs),
                             ced_capturedAt = pe_iso env \<rparr>\<rparr>"
  have eq: "captureAndCacheLocals config m cfs key env = cleanupCache m1 (t_cached env)"
    using assms(2) by (simp add: captureAndCacheLocals_def Let_def m1_def e_def)
  have c1: "localsCache m1 = AList.update key e (localsCache m)" by (simp add: m1_def)
  have d: "distinct (map fst (localsCache m1))"
    using assms(1) by (simp add: c1 cache_ok_def distinct_update)
  have len: "length (localsCache m1) \<le> 101"
    using assms(1) by (simp add: c1 cache_ok_def update_length)
  have mem: "(key, e) \<in> set (localsCache m1)"
    unfolding c1 by (rule update_member)
  have fresh: "\<not> (t_cached env - cl_timestamp e > cacheMaxAge)"
    by (simp add: e_def cacheMaxAge_def)
  have nothead: "length (localsCache m1) \<le> 100 \<or> fst (hd (localsCache m1)) \<noteq> key"
  proof (cases "key \<in> fst ` set (localsCache m)")
    case True
    then show ?thesis using assms(1) by (simp add: c1 cache_ok_def update_length)
  next
    case False
    show ?thesis
    proof (cases "localsCache m")
      case Nil
      then show ?thesis by (simp add: c1)
    next
      case (Cons a rest)
      then show ?thesis using False by (auto simp: c1)
    qed
  qed
  show ?thesis
    unfolding eq e_def[symmetric]
    by (rule cleanupCache_keeps[OF d len mem fresh nothead])
qed


lemma handlePaused_cache:
  assumes "session m" "reason event = ''exception'' \<or> reason event = ''promiseRejection''"
    and "\<not> rateLimitMax < (if t_paused env > rateLimitReset m then 1 else rateLimitCount m + 1)"
  shows "\<exists>m3. session m3 = session m \<and> scriptUrls m3 = scriptUrls m
           \<and> localsCache m3 = localsCache m
           \<and> localsCache (fst (handlePaused config (m, conn) (event, env)))
               = localsCache (captureAndCacheLocals config m3 (callFrames event)
                                (extractStackKey (pause_data event) (t_paused env)) env)"
proof -
  define m2 where "m2 = (if t_paused env > rateLimitReset m
                   then m\<lparr>rateLimitCount := 0, rateLimitReset := t_paused env + 1000\<rparr> else m)
                     \<lparr>rateLimitCount := rateLimitCount (if t_paused env > rateLimitReset m
                   then m\<lparr>rateLimitCount := 0, rateLimitReset := t_paused env + 1000\<rparr> else m) + 1\<rparr>"
  define m3 where "m3 = m2\<lparr>pendingCaptures :=
      AList.update (extractStackKey (pause_data event) (t_paused env)) (t_paused env) (pendingCaptures m2)\<rparr>"
  have "session m3 = session m" "scriptUrls m3 = scriptUrls m" "localsCache m3 = localsCache m"
    by (simp_all add: m3_def m2_def)
  moreover have "localsCache (fst (handlePaused config (m, conn) (event, env)))
               = localsCache (captureAndCacheLocals config m3 (callFrames event)
                                (extractStackKey (pause_data event) (t_paused env)) env)"
    using assms by (auto simp: handlePaused_def Let_def m3_def m2_def)
  ultimately show ?thesis by blast
qed

lemma addSentFingerprint_sent:
  "sentExceptionFingerprints (addSentFingerprint m fp)
     = (let added = (if fp \<in> set (sentExceptionFingerprints m) then sentExceptionFingerprints m
                     else sentExceptionFingerprints m @ [fp])
        in if length added > 100 then
             (case added of
                [] \<Rightarrow> added
              | first # rest \<Rightarrow> if first \<noteq> [] then removeAll first added else added)
           else added)"
  unfolding addSentFingerprint_def Let_def by simp

lemma addSentFingerprint_sent_cong:
  assumes "sentExceptionFingerprints m1 = sentExceptionFingerprints m2"
  shows "sentExceptionFingerprints (addSentFingerprint m1 fp)
     = sentExceptionFingerprints (addSentFingerprint m2 fp)"
  unfolding addSentFingerprint_sent assms ..

lemma addSentFingerprint_exact:
  assumes "dedup_ok m" "fp \<noteq> []"
  shows "sentExceptionFingerprints (addSentFingerprint m fp)
           = (if fp \<in> set (sentExceptionFingerprints m) then sentExceptionFingerprints m
              else if length (sentExceptionFingerprints m) < 100
                   then sentExceptionFingerprints m @ [fp]
                   else tl (sentExceptionFingerprints m) @ [fp])"
proof (cases "fp \<in> set (sentExceptionFingerprints m)")
  case True
  then show ?thesis using assms(1) by (simp add: addSentFingerprint_def dedup_ok_def Let_def)
next
  case False
  show ?thesis
  proof (cases "length (sentExceptionFingerprints m) < 100")
    case True
    then show ?thesis using False by (simp add: addSentFingerprint_def Let_def)
  next
    case full: False
    then have "length (sentExceptionFingerprints m) = 100"
      using assms(1) by (simp add: dedup_ok_def)
    then show ?thesis using dedup_eviction_fifo[OF assms(1) _ False assms(2)] False by simp
  qed
qed

lemma handlePaused_sent:
  assumes "session m" "reason event = ''exception''"
    and "\<not> rateLimitMax < (if t_paused env > rateLimitReset m then 1 else rateLimitCount m + 1)"
  shows "sentExceptionFingerprints (fst (handlePaused config (m, conn) (event, env)))
           = sentExceptionFingerprints
               (addSentFingerprint m
                  (computeFingerprintFromCallFrames (callFrames event) (pause_data event)))"
proof -
  define m2 where "m2 = (if t_paused env > rateLimitReset m
                   then m\<lparr>rateLimitCount := 0, rateLimitReset := t_paused env + 1000\<rparr> else m)
                     \<lparr>rateLimitCount := rateLimitCount (if t_paused env > rateLimitReset m
                   then m\<lparr>rateLimitCount := 0, rateLimitReset := t_paused env + 1000\<rparr> else m) + 1\<rparr>"
  define key where "key = extractStackKey (pause_data event) (t_paused env)"
  define m3 where "m3 = m2\<lparr>pendingCaptures := AList.update key (t_paused env) (pendingCaptures m2)\<rparr>"
  define m4 where "m4 = captureAndCacheLocals config m3 (callFrames event) key env"
  define m5 where "m5 = m4\<lparr>pendingCaptures := AList.delete key (pendingCaptures m4)\<rparr>"
  have s5: "sentExceptionFingerprints m5 = sentExceptionFingerprints m"
    by (simp add: m5_def m4_def m3_def m2_def)
  have "sentExceptionFingerprints (fst (handlePaused config (m, conn) (event, env)))
          = sentExceptionFingerprints
              (addSentFingerprint m5
                 (computeFingerprintFromCallFrames (callFrames event) (pause_data event)))"
    using assms
    by (auto simp: handlePaused_def Let_def m5_def m4_def m3_def m2_def key_def)
  then show ?thesis using addSentFingerprint_sent_cong[OF s5] by simp
qed

lemma handlePaused_unchanged:
  assumes "reason event \<noteq> ''exception''"
  shows "sentExceptionFingerprints (fst (handlePaused config (m, conn) (event, env)))
           = sentExceptionFingerprints m"
    and "reason event \<noteq> ''promiseRejection'' \<Longrightarrow>
         localsCache (fst (handlePaused config (m, conn) (event, env))) = localsCache m"
  using assms by (auto simp: handlePaused_def Let_def split: option.splits)

lemma captureAndCacheLocals_keys_new:
  assumes "cache_ok m" "key \<notin> fst ` set (localsCache m)" "key \<noteq> []" "\<not> harvestThrows env"
  shows "map fst (localsCache (captureAndCacheLocals config m cfs key env))
           = (if length (filter (\<lambda>entry. \<not> (t_cached env - cl_timestamp (snd entry) > cacheMaxAge))
                           (localsCache m)) < 100
              then map fst (filter (\<lambda>entry. \<not> (t_cached env - cl_timestamp (snd entry) > cacheMaxAge))
                              (localsCache m)) @ [key]
              else tl (map fst (filter (\<lambda>entry. \<not> (t_cached env - cl_timestamp (snd entry) > cacheMaxAge))
                                  (localsCache m))) @ [key])"
proof -
  define e where "e = \<lparr> locals = local_variables (captureCallFramesAsync config m (pe_heap env) cfs),
                          cl_stackTrace = stack_trace (captureCallFramesAsync config m (pe_heap env) cfs),
                          cl_timestamp = t_cached env \<rparr>"
  define m1 where "m1 = m\<lparr>localsCache := AList.update key e (localsCache m),
                    lastExceptionData :=
                      Some \<lparr> ced_stackTrace = stack_trace (captureCallFramesAsync config m (pe_heap env) cfs),
                             ced_localVariables = local_variables (captureCallFramesAsync config m (pe_heap env) cfs),
                             ced_capturedAt = pe_iso env \<rparr>\<rparr>"
  define old where
    "old = filter (\<lambda>entry. \<not> (t_cached env - cl_timestamp (snd entry) > cacheMaxAge)) (localsCache m)"
  define kept where "kept = old @ [(key, e)]"
  have eq: "captureAndCacheLocals config m cfs key env = cleanupCache m1 (t_cached env)"
    using assms(4) by (simp add: captureAndCacheLocals_def Let_def m1_def e_def)
  have c1: "localsCache m1 = localsCache m @ [(key, e)]"
    by (simp add: m1_def update_fresh[OF assms(2)])
  have k: "filter (\<lambda>entry. \<not> (t_cached env - cl_timestamp (snd entry) > cacheMaxAge)) (localsCache m1)
             = kept"
    by (simp add: c1 kept_def old_def e_def cacheMaxAge_def)
  have dist: "distinct (map fst kept)"
    using assms(1,2) by (auto simp: kept_def old_def cache_ok_def distinct_map_filter)
  have ne: "[] \<notin> fst ` set kept"
    using assms(1,3) by (auto simp: kept_def old_def cache_ok_def)
  have lo: "length old \<le> 100"
    using assms(1) le_trans[OF length_filter_le] by (auto simp: old_def cache_ok_def)
  have c: "localsCache (cleanupCache m1 (t_cached env)) =
             (if length kept > 100 then
                 (case kept of
                    [] \<Rightarrow> kept
                  | oldest # rest \<Rightarrow> if fst oldest \<noteq> [] then AList.delete (fst oldest) kept else kept)
               else kept)"
    unfolding cleanupCache_def Let_def k by simp
  have res: "localsCache (cleanupCache m1 (t_cached env)) = (if length old < 100 then kept else tl kept)"
  proof (cases "length old < 100")
    case True
    then show ?thesis by (simp add: c kept_def)
  next
    case False
    then have big: "length kept > 100" using lo by (simp add: kept_def)
    then obtain oldest rest where kk: "kept = oldest # rest" by (cases kept) auto
    have o: "fst oldest \<noteq> []" using ne kk by auto
    have "AList.delete (fst oldest) kept = rest"
      using delete_head[of oldest rest] dist kk by simp
    then show ?thesis using False big kk o by (simp add: c)
  qed
  have "old \<noteq> []" if "\<not> length old < 100" using that by auto
  then show ?thesis
    unfolding eq res old_def[symmetric] by (auto simp: kept_def map_tl)
qed

lemma handlePaused_cache_new_key:
  assumes "session m" "cache_ok m"
    and "reason event = ''exception'' \<or> reason event = ''promiseRejection''"
    and "\<not> rateLimitMax < (if t_paused env > rateLimitReset m then 1 else rateLimitCount m + 1)"
    and "\<not> harvestThrows env"
    and "extractStackKey (pause_data event) (t_paused env) \<notin> fst ` set (localsCache m)"
  shows "map fst (localsCache (fst (handlePaused config (m, conn) (event, env))))
           = (if length (filter (\<lambda>entry. \<not> (t_cached env - cl_timestamp (snd entry) > cacheMaxAge))
                           (localsCache m)) < 100
              then map fst (filter (\<lambda>entry. \<not> (t_cached env - cl_timestamp (snd entry) > cacheMaxAge))
                              (localsCache m)) @ [extractStackKey (pause_data event) (t_paused env)]
              else tl (map fst (filter (\<lambda>entry. \<not> (t_cached env - cl_timestamp (snd entry) > cacheMaxAge))
                                  (localsCache m))) @ [extractStackKey (pause_data event) (t_paused env)])"
proof -
  obtain m3 where m3: "session m3 = session m" "scriptUrls m3 = scriptUrls m"
      "localsCache m3 = localsCache m"
      "localsCache (fst (handlePaused config (m, conn) (event, env)))
         = localsCache (captureAndCacheLocals config m3 (callFrames event)
                          (extractStackKey (pause_data event) (t_paused env)) env)"
    using handlePaused_cache[OF assms(1,3,4), of config conn] by blast
  have ok3: "cache_ok m3" using assms(2) m3(3) by (simp add: cache_ok_def)
  have new: "extractStackKey (pause_data event) (t_paused env) \<notin> fst ` set (localsCache m3)"
    using assms(6) by (simp add: m3(3))
  show ?thesis
    using captureAndCacheLocals_keys_new[OF ok3 new extractStackKey_nonempty assms(5),
            of config "callFrames event"]
    by (simp add: m3(3,4))
qed

lemma handlePaused_cache_lookup:
  assumes "session m" "cache_ok m"
    and "reason event = ''exception'' \<or> reason event = ''promiseRejection''"
    and "\<not> rateLimitMax < (if t_paused env > rateLimitReset m then 1 else rateLimitCount m + 1)"
    and "\<not> harvestThrows env"
  shows "map_of (localsCache (fst (handlePaused config (m, conn) (event, env))))
           (extractStackKey (pause_data event) (t_paused env))
         = Some \<lparr> locals = local_variables (captureCallFramesAsync config m (pe_heap env) (callFrames event)),
                  cl_stackTrace = stack_trace (captureCallFramesAsync config m (pe_heap env) (callFrames event)),
                  cl_timestamp = t_cached env \<rparr>"
proof -
  obtain m3 where m3: "session m3 = session m" "scriptUrls m3 = scriptUrls m"
      "localsCache m3 = localsCache m"
      "localsCache (fst (handlePaused config (m, conn) (event, env)))
         = localsCache (captureAndCacheLocals config m3 (callFrames event)
                          (extractStackKey (pause_data event) (t_paused env)) env)"
    using handlePaused_cache[OF assms(1,3,4), of config conn] by blast
  have ok3: "cache_ok m3" using assms(2) m3(3) by (simp add: cache_ok_def)
  show ?thesis
    using captureAndCacheLocals_lookup[OF ok3 assms(5), of config "callFrames event"
            "extractStackKey (pause_data event) (t_paused env)"]
    by (simp add: m3(4) captureCallFramesAsync_cong[OF m3(1,2)])
qed


lemma handlePaused_step_count:
  fixes m config conn event env
  defines "m' \<equiv> fst (handlePaused config (m, conn) (event, env))"
  assumes "cache_ok m" "dedup_ok m"
  shows "length (localsCache m')
           \<le> length (localsCache m)
               + (if reason event = ''exception'' \<or> reason event = ''promiseRejection'' then 1 else 0)"
    and "length (sentExceptionFingerprints m')
           \<le> length (sentExceptionFingerprints m) + (if reason event = ''exception'' then 1 else 0)"
proof -
  show "length (localsCache m')
           \<le> length (localsCache m)
               + (if reason event = ''exception'' \<or> reason event = ''promiseRejection'' then 1 else 0)"
    using handlePaused_ok(3)[OF assms(2,3), of config conn "(event, env)"]
          handlePaused_unchanged(2)[of event config m conn env]
    by (auto simp: m'_def)
  show "length (sentExceptionFingerprints m')
           \<le> length (sentExceptionFingerprints m) + (if reason event = ''exception'' then 1 else 0)"
    using handlePaused_ok(4)[OF assms(2,3), of config conn "(event, env)"]
          handlePaused_unchanged(1)[of event config m conn env]
    by (auto simp: m'_def)
qed

lemma handlePaused_all_count:
  fixes m config conn pauses
  defines "m' \<equiv> fst (handlePaused_all config (m, conn) pauses)"
  assumes "cache_ok m" "dedup_ok m"
  shows "length (localsCache m')
           \<le> length (localsCache m)
               + length (filter (\<lambda>pause. reason (fst pause) = ''exception''
                                       \<or> reason (fst pause) = ''promiseRejection'') pauses)
     \<and> length (sentExceptionFingerprints m')
           \<le> length (sentExceptionFingerprints m)
               + length (filter (\<lambda>pause. reason (fst pause) = ''exception'') pauses)"
  unfolding m'_def
proof (induction pauses rule: rev_induct)
  case Nil
  then show ?case by (simp add: handlePaused_all_def)
next
  case (snoc pause pauses)
  obtain m1 conn1 where st: "handlePaused_all config (m, conn) pauses = (m1, conn1)"
    by (cases "handlePaused_all config (m, conn) pauses") auto
  obtain event env where p: "pause = (event, env)" by (cases pause) auto
  have ok: "cache_ok m1" "dedup_ok m1"
    using handlePaused_all_ok[OF assms(2,3), of config conn pauses] by (simp_all add: st)
  show ?case
    using handlePaused_step_count[OF ok, of config conn1 event env] snoc.IH
    by (auto simp: handlePaused_all_snoc st p)
qed

text \<open>
  C9. Both structures keep their bound under every insertion, and the pause handler
  itself inserts and evicts first-in first-out. Handling any number of pauses keeps the
  two invariants, and from an empty cache and an empty set the cache holds at most
  \<open>min N 100\<close> entries after \<open>N\<close> pauses for an exception or a promise rejection, and
  the set at most \<open>min N 100\<close> fingerprints after \<open>N\<close> pauses for an exception. One
  exception pause that is not rate-limited leaves the set exactly as it was when the
  fingerprint of the pause is already in it, with the fingerprint appended when the set
  holds fewer than 100, and with its first-inserted fingerprint dropped and the new one
  appended when it holds 100; a pause for another reason leaves the set as it was. One
  pause that is not rate-limited and whose harvest does not throw stores the harvest
  under the stack key of the pause; when the key is new, the keys of the cache are
  those of the entries not older than \<^const>\<open>cacheMaxAge\<close>, in order, without the first
  of them when there are 100, followed by the new key. The same first-in first-out
  eviction holds of the two insertions taken alone.
\<close>

theorem bounded_cache_and_dedup_set:
  "(cache_ok start \<and> dedup_ok start \<longrightarrow>
      cache_ok (fst (handlePaused_all config (start, conn) pauses))
      \<and> dedup_ok (fst (handlePaused_all config (start, conn) pauses)))
   \<and> (localsCache start = [] \<and> sentExceptionFingerprints start = [] \<longrightarrow>
      length (localsCache (fst (handlePaused_all config (start, conn) pauses)))
        \<le> min (length (filter (\<lambda>pause. reason (fst pause) = ''exception''
                                         \<or> reason (fst pause) = ''promiseRejection'') pauses)) 100
      \<and> length (sentExceptionFingerprints (fst (handlePaused_all config (start, conn) pauses)))
        \<le> min (length (filter (\<lambda>pause. reason (fst pause) = ''exception'') pauses)) 100)
   \<and> (session m \<and> dedup_ok m \<and> reason event = ''exception''
        \<and> \<not> rateLimitMax < (if t_paused env > rateLimitReset m then 1 else rateLimitCount m + 1) \<longrightarrow>
      sentExceptionFingerprints (fst (handlePaused config (m, conn) (event, env)))
        = (if computeFingerprintFromCallFrames (callFrames event) (pause_data event)
                \<in> set (sentExceptionFingerprints m)
           then sentExceptionFingerprints m
           else if length (sentExceptionFingerprints m) < 100
           then sentExceptionFingerprints m
                  @ [computeFingerprintFromCallFrames (callFrames event) (pause_data event)]
           else tl (sentExceptionFingerprints m)
                  @ [computeFingerprintFromCallFrames (callFrames event) (pause_data event)]))
   \<and> (reason event \<noteq> ''exception'' \<longrightarrow>
      sentExceptionFingerprints (fst (handlePaused config (m, conn) (event, env)))
        = sentExceptionFingerprints m)
   \<and> (session m \<and> cache_ok m
        \<and> (reason event = ''exception'' \<or> reason event = ''promiseRejection'')
        \<and> \<not> rateLimitMax < (if t_paused env > rateLimitReset m then 1 else rateLimitCount m + 1)
        \<and> \<not> harvestThrows env \<longrightarrow>
      map_of (localsCache (fst (handlePaused config (m, conn) (event, env))))
        (extractStackKey (pause_data event) (t_paused env))
        = Some \<lparr> locals = local_variables
                          (captureCallFramesAsync config m (pe_heap env) (callFrames event)),
                 cl_stackTrace = stack_trace
                          (captureCallFramesAsync config m (pe_heap env) (callFrames event)),
                 cl_timestamp = t_cached env \<rparr>
      \<and> (extractStackKey (pause_data event) (t_paused env) \<notin> fst ` set (localsCache m) \<longrightarrow>
           map fst (localsCache (fst (handlePaused config (m, conn) (event, env))))
             = (if length (filter (\<lambda>entry. \<not> (t_cached env - cl_timestamp (snd entry) > cacheMaxAge))
                             (localsCache m)) < 100
                then map fst (filter (\<lambda>entry. \<not> (t_cached env - cl_timestamp (snd entry) > cacheMaxAge))
                                (localsCache m))
                       @ [extractStackKey (pause_data event) (t_paused env)]
                else tl (map fst (filter (\<lambda>entry. \<not> (t_cached env - cl_timestamp (snd entry) > cacheMaxAge))
                                    (localsCache m)))
                       @ [extractStackKey (pause_data event) (t_paused env)])))
   \<and> (cache_ok m \<and> length (localsCache m) = 100 \<and> key \<notin> fst ` set (localsCache m)
        \<and> key \<noteq> [] \<and> \<not> harvestThrows env
        \<and> (\<forall>entry \<in> set (localsCache m).
              \<not> (t_cached env - cl_timestamp (snd entry) > cacheMaxAge)) \<longrightarrow>
      map fst (localsCache (captureAndCacheLocals config m cfs key env))
        = tl (map fst (localsCache m)) @ [key])
   \<and> (dedup_ok m \<and> length (sentExceptionFingerprints m) = 100
        \<and> fp \<notin> set (sentExceptionFingerprints m) \<and> fp \<noteq> [] \<longrightarrow>
      sentExceptionFingerprints (addSentFingerprint m fp)
        = tl (sentExceptionFingerprints m) @ [fp])"
proof -
  have inv: "cache_ok (fst (handlePaused_all config (start, conn) pauses))
      \<and> dedup_ok (fst (handlePaused_all config (start, conn) pauses))"
    if "cache_ok start" "dedup_ok start"
    using handlePaused_all_ok[OF that, of config conn pauses] by simp
  have bound: "length (localsCache (fst (handlePaused_all config (start, conn) pauses)))
        \<le> min (length (filter (\<lambda>pause. reason (fst pause) = ''exception''
                                         \<or> reason (fst pause) = ''promiseRejection'') pauses)) 100
      \<and> length (sentExceptionFingerprints (fst (handlePaused_all config (start, conn) pauses)))
        \<le> min (length (filter (\<lambda>pause. reason (fst pause) = ''exception'') pauses)) 100"
    if e: "localsCache start = []" "sentExceptionFingerprints start = []"
  proof -
    have ok: "cache_ok start" "dedup_ok start"
      using e by (simp_all add: cache_ok_def dedup_ok_def)
    show ?thesis
      using handlePaused_all_ok[OF ok, of config conn pauses]
            handlePaused_all_count[OF ok, of config conn pauses] e
      by (simp add: cache_ok_def dedup_ok_def)
  qed
  have sent: "sentExceptionFingerprints (fst (handlePaused config (m, conn) (event, env)))
        = (if computeFingerprintFromCallFrames (callFrames event) (pause_data event)
                \<in> set (sentExceptionFingerprints m)
           then sentExceptionFingerprints m
           else if length (sentExceptionFingerprints m) < 100
           then sentExceptionFingerprints m
                  @ [computeFingerprintFromCallFrames (callFrames event) (pause_data event)]
           else tl (sentExceptionFingerprints m)
                  @ [computeFingerprintFromCallFrames (callFrames event) (pause_data event)])"
    if "session m" "dedup_ok m" "reason event = ''exception''"
      "\<not> rateLimitMax < (if t_paused env > rateLimitReset m then 1 else rateLimitCount m + 1)"
    using handlePaused_sent[OF that(1,3,4), of config conn]
          addSentFingerprint_exact[OF that(2) fingerprint_nonempty, of "callFrames event" "pause_data event"]
    by simp
  show ?thesis
    using inv bound sent
          handlePaused_unchanged(1)[of event config m conn env]
          handlePaused_cache_lookup[of m event env config conn]
          handlePaused_cache_new_key[of m event env config conn]
          cache_eviction_fifo[of m key env config cfs] dedup_eviction_fifo[of m fp]
    by blast
qed

theorem bounded_cache_and_dedup_set_witness:
  "session example_full_manager
   \<and> cache_ok example_full_manager
   \<and> dedup_ok example_full_manager
   \<and> length (localsCache example_full_manager) = 100
   \<and> length (sentExceptionFingerprints example_full_manager) = 100
   \<and> reason example_pause = ''exception''
   \<and> \<not> harvestThrows example_pause_env
   \<and> computeFingerprintFromCallFrames (callFrames example_pause) (pause_data example_pause)
       = ''Error|10''
   \<and> ''Error|10'' \<notin> set (sentExceptionFingerprints example_full_manager)
   \<and> extractStackKey (pause_data example_pause) (t_paused example_pause_env)
       = ''Error: boom|    at foo (/app/a.js:10:5)''
   \<and> ''Error: boom|    at foo (/app/a.js:10:5)'' \<notin> fst ` set (localsCache example_full_manager)
   \<and> sentExceptionFingerprints
        (fst (handlePaused example_config (example_full_manager, new_BackendConnection)
                (example_pause, example_pause_env)))
       = tl (sentExceptionFingerprints example_full_manager) @ [''Error|10'']
   \<and> map fst (localsCache
        (fst (handlePaused example_config (example_full_manager, new_BackendConnection)
                (example_pause, example_pause_env))))
       = tl (map fst (localsCache example_full_manager))
           @ [''Error: boom|    at foo (/app/a.js:10:5)'']
   \<and> localsCache example_manager = []
   \<and> sentExceptionFingerprints example_manager = []
   \<and> length (localsCache (fst (handlePaused_all example_config
                  (example_manager, new_BackendConnection)
                  [(example_pause, example_pause_env)]))) \<le> 1"
proof -
  have c: "localsCache example_full_manager =
             map (\<lambda>i. (replicate (Suc i) (CHR ''k''),
                     \<lparr> locals = [], cl_stackTrace = [], cl_timestamp = 1000 \<rparr>)) [0..<100]"
    and f: "sentExceptionFingerprints example_full_manager
              = map (\<lambda>i. replicate (Suc i) (CHR ''f'')) [0..<100]"
    by (simp_all add: example_full_manager_def)
  have e: "localsCache example_manager = []" "sentExceptionFingerprints example_manager = []"
    "session example_manager" "rateLimitCount example_manager = 0"
    "rateLimitReset example_manager = 0"
    by (simp_all add: example_manager_def enable_def new_InspectorManager_def post_def Let_def)
  have s: "session example_full_manager" "rateLimitCount example_full_manager = 0"
    "rateLimitReset example_full_manager = 0"
    using e by (simp_all add: example_full_manager_def)
  have ok: "cache_ok example_full_manager" "dedup_ok example_full_manager"
    unfolding cache_ok_def dedup_ok_def c f
    by (auto simp: comp_def distinct_map inj_on_def)
  have l: "length (localsCache example_full_manager) = 100"
    "length (sentExceptionFingerprints example_full_manager) = 100"
    by (simp_all add: c f)
  have r: "reason example_pause = ''exception''"
    by (simp add: example_pause_def)
  have h: "\<not> harvestThrows example_pause_env" "t_cached example_pause_env = 1001"
    "t_paused example_pause_env = 1000"
    by (simp_all add: example_pause_env_def)
  have fp: "computeFingerprintFromCallFrames (callFrames example_pause) (pause_data example_pause)
              = ''Error|10''"
    by code_simp
  have key: "extractStackKey (pause_data example_pause) (t_paused example_pause_env)
              = ''Error: boom|    at foo (/app/a.js:10:5)''"
    by code_simp
  have n: "''Error: boom|    at foo (/app/a.js:10:5)'' \<notin> fst ` set (localsCache example_full_manager)"
    "''Error|10'' \<notin> set (sentExceptionFingerprints example_full_manager)"
    unfolding c f by auto
  have fr: "filter (\<lambda>entry. \<not> (t_cached example_pause_env - cl_timestamp (snd entry) > cacheMaxAge))
              (localsCache example_full_manager) = localsCache example_full_manager"
    unfolding c h by (auto simp: cacheMaxAge_def filter_id_conv)
  show ?thesis
    using bounded_cache_and_dedup_set
            [where start = example_manager and config = example_config
               and conn = new_BackendConnection and pauses = "[(example_pause, example_pause_env)]"
               and m = example_full_manager and event = example_pause
               and env = example_pause_env and key = "''new''"
               and cfs = "callFrames example_pause" and fp = "''Error|10''"]
          s ok l r h(1,3) fp key n fr e(1,2)
    by (simp add: rateLimitMax_def)
qed


subsection \<open>The stack key and the cached harvest\<close>

text \<open>
  C8. For an error whose stack text is the (non-empty) description the debugger reported,
  the key the pipeline computes from the stack equals the key the session computed from
  the description. So the harvest of a pause that was not rate-limited and did not throw
  is found again by \<^const>\<open>getLocalsForError\<close> when the error is reported, as long as that
  happens less than \<^const>\<open>cacheMaxAge\<close> ms after it was cached.
\<close>

theorem stack_key_agreement:
  assumes "description d = Some s" and "s \<noteq> []" and "err_stack error = Some s"
  shows "stackKeyOfError error = Some (extractStackKey (Some d) now)
     \<and> (session m \<and> cache_ok m
          \<and> (reason event = ''exception'' \<or> reason event = ''promiseRejection'')
          \<and> pause_data event = Some d
          \<and> \<not> rateLimitMax < (if t_paused env > rateLimitReset m then 1 else rateLimitCount m + 1)
          \<and> \<not> harvestThrows env
          \<and> lookup - t_cached env < cacheMaxAge \<longrightarrow>
        fst (getLocalsForError (fst (handlePaused config (m, conn) (event, env))) error lookup)
          = Some (local_variables (captureCallFramesAsync config m (pe_heap env) (callFrames event)),
                  stack_trace (captureCallFramesAsync config m (pe_heap env) (callFrames event))))"
proof -
  have key: "stackKeyOfError error = Some (extractStackKey (Some d) now)"
    using assms by (simp add: stackKeyOfError_def extractStackKey_def)
  have found: "fst (getLocalsForError (fst (handlePaused config (m, conn) (event, env))) error lookup)
          = Some (local_variables (captureCallFramesAsync config m (pe_heap env) (callFrames event)),
                  stack_trace (captureCallFramesAsync config m (pe_heap env) (callFrames event)))"
    if h: "session m" "cache_ok m"
      "reason event = ''exception'' \<or> reason event = ''promiseRejection''"
      "pause_data event = Some d"
      "\<not> rateLimitMax < (if t_paused env > rateLimitReset m then 1 else rateLimitCount m + 1)"
      "\<not> harvestThrows env" "lookup - t_cached env < cacheMaxAge"
  proof -
    obtain m3 where m3: "session m3 = session m" "scriptUrls m3 = scriptUrls m"
        "localsCache m3 = localsCache m"
        "localsCache (fst (handlePaused config (m, conn) (event, env)))
           = localsCache (captureAndCacheLocals config m3 (callFrames event)
                            (extractStackKey (pause_data event) (t_paused env)) env)"
      using handlePaused_cache[OF h(1) h(3) h(5), of config conn] by blast
    have ok3: "cache_ok m3" using h(2) m3(3) by (simp add: cache_ok_def)
    have k: "extractStackKey (pause_data event) (t_paused env) = extractStackKey (Some d) now"
      using assms(1,2) h(4) by (simp add: extractStackKey_def)
    have "map_of (localsCache (fst (handlePaused config (m, conn) (event, env))))
            (extractStackKey (Some d) now)
          = Some \<lparr> locals = local_variables (captureCallFramesAsync config m (pe_heap env) (callFrames event)),
                    cl_stackTrace = stack_trace (captureCallFramesAsync config m (pe_heap env) (callFrames event)),
                    cl_timestamp = t_cached env \<rparr>"
      using captureAndCacheLocals_lookup[OF ok3 h(6), of config "callFrames event"
              "extractStackKey (pause_data event) (t_paused env)"]
      by (simp add: m3(4) k captureCallFramesAsync_cong[OF m3(1,2)])
    then show ?thesis
      using h(7) by (simp add: getLocalsForError_def key)
  qed
  show ?thesis using key found by blast
qed

theorem stack_key_agreement_witness:
  "description (the (pause_data example_pause)) = Some example_stack
   \<and> example_stack \<noteq> []
   \<and> err_stack example_error = Some example_stack
   \<and> stackKeyOfError example_error
       = Some (extractStackKey (pause_data example_pause) (t_paused example_pause_env))
   \<and> session example_manager \<and> cache_ok example_manager
   \<and> map_option (\<lambda>found. map (\<lambda>entry. (fst entry, cv_value (snd entry))) (fst found))
       (fst (getLocalsForError example_after_pause example_error 1005))
       = Some [(''x'', ''42''), (''y'', ''hello'')]"
proof -
  have d: "pause_data example_pause = Some (the (pause_data example_pause))"
    "description (the (pause_data example_pause)) = Some example_stack"
    "reason example_pause = ''exception''"
    by (simp_all add: example_pause_def)
  have s: "example_stack \<noteq> []" by (simp add: example_stack_def)
  have e: "err_stack example_error = Some example_stack" by (simp add: example_error_def)
  have m: "session example_manager" "cache_ok example_manager"
    "rateLimitCount example_manager = 0" "rateLimitReset example_manager = 0"
    by (simp_all add: example_manager_def enable_def new_InspectorManager_def post_def Let_def
        cache_ok_def)
  have env: "t_paused example_pause_env = 1000" "t_cached example_pause_env = 1001"
    "\<not> harvestThrows example_pause_env" "pe_heap example_pause_env = example_heap"
    by (simp_all add: example_pause_env_def)
  have harvest: "map (\<lambda>entry. (fst entry, cv_value (snd entry)))
          (local_variables (captureCallFramesAsync example_config example_manager example_heap
             (callFrames example_pause)))
        = [(''x'', ''42''), (''y'', ''hello'')]"
    by code_simp
  show ?thesis
    using stack_key_agreement
            [OF d(2) s e, where now = "t_paused example_pause_env" and m = example_manager
               and event = example_pause and env = example_pause_env and lookup = 1005
               and config = example_config and conn = new_BackendConnection]
          d s e m env harvest
    by (simp add: example_after_pause_def rateLimitMax_def cacheMaxAge_def)
qed


section \<open>Exception Pipeline: what is handed to Transport\<close>

lemma createCapture_ignores_sent:
  "fst (createCapture config h (m\<lparr>sentExceptionFingerprints := fps\<rparr>) error ctx env)
     = fst (createCapture config h m error ctx env)"
  "snd (createCapture config h (m\<lparr>sentExceptionFingerprints := fps\<rparr>) error ctx env)
     = (snd (createCapture config h m error ctx env))\<lparr>sentExceptionFingerprints := fps\<rparr>"
  by (simp_all add: createCapture_def Let_def isExceptionPauseEnabled_def getLastExceptionData_def)

lemma getLocalsForError_ignores_sent:
  "fst (getLocalsForError (m\<lparr>sentExceptionFingerprints := fps\<rparr>) error now)
     = fst (getLocalsForError m error now)"
  by (simp add: getLocalsForError_def Let_def split: option.splits)

lemma capture_ignores_sent:
  "snd (capture config h (m\<lparr>sentExceptionFingerprints := fps\<rparr>, conn) error ctx env)
     = snd (capture config h (m, conn) error ctx env)"
  by (simp add: capture_def Let_def createCapture_ignores_sent getLocalsForError_ignores_sent
      cong: option.case_cong)

lemma createCapture_fields:
  "exceptionType (fst (createCapture config h m error ctx env))
     = str_or (Some (err_name error)) ''Error''"
  "stackTrace (fst (createCapture config h m error ctx env)) = parseStackTrace error"
  by (simp_all add: createCapture_def Let_def)

lemma capture_sends:
  assumes "shouldSample config (rnd env)"
  shows "\<exists>cap. exceptionType cap = str_or (Some (err_name error)) ''Error''
           \<and> stackTrace cap = parseStackTrace error
           \<and> snd (capture config h (m, conn) error ctx env)
               = sendException config conn cap (t_send env)"
proof -
  define made where "made = createCapture config h m error ctx env"
  define found where
    "found = (if hasInspector h then getLocalsForError (snd made) error (t_lookup env)
              else (None, snd made))"
  define cap where
    "cap = (case fst found of
              None \<Rightarrow> fst made
            | Some cachedData \<Rightarrow> (fst made)\<lparr>localVariables := fst cachedData\<rparr>)"
  have "exceptionType cap = str_or (Some (err_name error)) ''Error''"
    "stackTrace cap = parseStackTrace error"
    by (simp_all add: cap_def made_def createCapture_fields split: option.splits)
  moreover have "snd (capture config h (m, conn) error ctx env)
                   = sendException config conn cap (t_send env)"
    using assms
    by (simp add: capture_def Let_def cap_def found_def made_def cong: option.case_cong)
  ultimately show ?thesis by blast
qed

text \<open>
  C1, as the code has it. The two hooks run the body of \<^const>\<open>capture\<close> with their own
  error and context. What \<^const>\<open>capture\<close> hands to Transport does not depend on the
  deduplication set: when the sampling admits the exception, \<^const>\<open>sendException\<close> is
  called once with the capture made from the error, and when it does not, nothing
  changes.
\<close>

theorem pipeline_sends_whatever_the_dedup_set:
  "handleUncaughtException config h state error origin env
     = capture config h state error [(''origin'', Opaque origin)] env
   \<and> handleUnhandledRejection config h state r env
     = capture config h state (reasonError r) [(''type'', Opaque ''unhandledRejection'')] env
   \<and> snd (capture config h (m\<lparr>sentExceptionFingerprints := fps\<rparr>, conn) error ctx env)
     = snd (capture config h (m, conn) error ctx env)
   \<and> (shouldSample config (rnd env) \<longrightarrow>
        (\<exists>cap. exceptionType cap = str_or (Some (err_name error)) ''Error''
           \<and> stackTrace cap = parseStackTrace error
           \<and> snd (capture config h (m, conn) error ctx env)
               = sendException config conn cap (t_send env)))
   \<and> (\<not> shouldSample config (rnd env) \<longrightarrow>
        capture config h (m, conn) error ctx env = (m, conn))"
proof -
  have "handleUncaughtException config h state error origin env
          = capture config h state error [(''origin'', Opaque origin)] env"
    by (cases state) (simp add: handleUncaughtException_def capture_def Let_def)
  moreover have "handleUnhandledRejection config h state r env
          = capture config h state (reasonError r) [(''type'', Opaque ''unhandledRejection'')] env"
    by (cases state) (simp add: handleUnhandledRejection_def capture_def Let_def)
  moreover have "\<not> shouldSample config (rnd env) \<Longrightarrow>
        capture config h (m, conn) error ctx env = (m, conn)"
    by (simp add: capture_def)
  ultimately show ?thesis
    using capture_ignores_sent
            [where config = config and h = h and m = m and fps = fps and conn = conn
               and error = error and ctx = ctx and env = env]
          capture_sends
            [where config = config and h = h and m = m and conn = conn and error = error
               and ctx = ctx and env = env]
    by blast
qed

theorem pipeline_sends_whatever_the_dedup_set_witness:
  "shouldSample example_config (rnd example_capture_env)
   \<and> (\<exists>cap. exceptionType cap = ''Error''
         \<and> stackTrace cap = parseStackTrace example_error
         \<and> snd (capture example_config example_handler
                  (example_after_pause, new_BackendConnection) example_error []
                  example_capture_env)
             = sendException example_config new_BackendConnection cap
                 (t_send example_capture_env))"
proof -
  have s: "shouldSample example_config (rnd example_capture_env)"
    by (simp add: shouldSample_def example_config_def new_AgentConfig_def example_options_def
        example_env_def)
  have n: "err_name example_error = ''Error''"
    by (simp add: example_error_def)
  show ?thesis
    using pipeline_sends_whatever_the_dedup_set
            [where config = example_config and h = example_handler
               and state = "(example_after_pause, new_BackendConnection)"
               and error = example_error and origin = "''uncaughtException''"
               and env = example_capture_env and r = "ReasonError example_error"
               and m = example_after_pause and fps = "[]" and conn = new_BackendConnection
               and ctx = "[]"]
          s n
    by simp
qed

text \<open>
  C1 as the claim states it fails. The debugger pauses on the example error, which puts
  the key \<open>Error|10\<close> into the deduplication set; the error is then reported through
  \<^const>\<open>capture\<close>. Its key is in the set, and the \<^verbatim>\<open>exception\<close> message is handed to
  Transport all the same (it waits in the queue, the transport not being registered).
\<close>

theorem dedup_key_present_yet_sent:
  "wasExceptionSentByInspector example_after_pause ''Error'' (parseStackTrace example_error)
   \<and> map msg_type
       (messageQueue (snd (capture example_config example_handler
          (example_after_pause, new_BackendConnection) example_error [] example_capture_env)))
     = [''exception'']"
  by code_simp

section \<open>The public surface: init without an API key\<close>

text \<open>
  C10. When \<^const>\<open>init\<close> finds no API key, neither in the options nor in
  \<^verbatim>\<open>AIVORY_API_KEY\<close>, on an agent that is not initialized, it only replaces the module's
  configuration: the agent is still not initialized, no handler, session or connection
  is made, and a \<^const>\<open>captureException\<close> after it changes nothing, so nothing is
  emitted. From the module's first state there is then no handler, no session and no
  connection at all.
\<close>

theorem init_without_api_key:
  assumes "\<not> initialized a"
    and "\<not> truthy (opt_apiKey options)"
    and "\<not> truthy (AIVORY_API_KEY (processEnv env))"
  shows "init a options env = a\<lparr>moduleConfig := Some (new_AgentConfig options (processEnv env))\<rparr>
    \<and> \<not> isInitialized (init a options env)
    \<and> exceptionHandler (init a options env) = exceptionHandler a
    \<and> connection (init a options env) = connection a
    \<and> inspectorManager (init a options env) = inspectorManager a
    \<and> captureException (init a options env) error ctx cenv = init a options env
    \<and> outbound (captureException (init a options env) error ctx cenv) = outbound a
    \<and> exceptionHandler (init new_Agent options env) = None
    \<and> connection (init new_Agent options env) = None
    \<and> inspectorManager (init new_Agent options env) = None
    \<and> outbound (captureException (init new_Agent options env) error ctx cenv) = []"
proof -
  have k: "apiKey (new_AgentConfig options (processEnv env)) = []"
    using assms(2,3)
    by (cases "opt_apiKey options"; cases "AIVORY_API_KEY (processEnv env)")
       (simp_all add: new_AgentConfig_def)
  have a: "init a options env = a\<lparr>moduleConfig := Some (new_AgentConfig options (processEnv env))\<rparr>"
    using assms(1) k by (simp add: init_def Let_def)
  have n: "init new_Agent options env
             = new_Agent\<lparr>moduleConfig := Some (new_AgentConfig options (processEnv env))\<rparr>"
    using k by (simp add: init_def Let_def new_Agent_def)
  show ?thesis
    unfolding a n using assms(1)
    by (simp add: isInitialized_def captureException_def outbound_def new_Agent_def)
qed

theorem init_without_api_key_witness:
  "\<not> initialized new_Agent
   \<and> \<not> truthy (opt_apiKey (example_options\<lparr>opt_apiKey := None\<rparr>))
   \<and> \<not> truthy (AIVORY_API_KEY (processEnv example_init_env))
   \<and> \<not> isInitialized (init new_Agent (example_options\<lparr>opt_apiKey := None\<rparr>) example_init_env)
   \<and> connection (init new_Agent (example_options\<lparr>opt_apiKey := None\<rparr>) example_init_env) = None
   \<and> outbound (captureException
                 (init new_Agent (example_options\<lparr>opt_apiKey := None\<rparr>) example_init_env)
                 example_error [] example_capture_env) = []"
proof -
  have h: "\<not> initialized new_Agent"
    "\<not> truthy (opt_apiKey (example_options\<lparr>opt_apiKey := None\<rparr>))"
    "\<not> truthy (AIVORY_API_KEY (processEnv example_init_env))"
    by (simp_all add: new_Agent_def example_init_env_def example_env_def)
  show ?thesis
    using init_without_api_key
            [OF h, where error = example_error and ctx = "[]" and cenv = example_capture_env]
          h
    by (simp add: isInitialized_def new_Agent_def captureException_def outbound_def)
qed

end
